theory Spec2Isabelle
  imports Complex_Main
begin

section \<open>JavaScript numbers\<close>

text \<open>
  The calculation core of \<^verbatim>\<open>src/index.tsx\<close> works on the TypeScript type
  \<^verbatim>\<open>number\<close>, the IEEE 754 binary64 format. A number is one of the special values
  \<open>NaN\<close>, \<open>+Infinity\<close>, \<open>-Infinity\<close>, or a finite value, carried as the real it
  denotes. Every arithmetic operation computes the exact result and rounds it to the
  nearest binary64 value, ties to even, overflowing to an infinity. The two zeros are
  identified (a zero divisor counts as \<open>+0\<close>).
\<close>

datatype number = NaN | PInf | NInf | Num real

subsection \<open>Rounding to binary64\<close>

text \<open>Rounding a real to the nearest integer, a tie going to the even neighbour.\<close>

definition round_even :: "real \<Rightarrow> int" where
  "round_even z =
     (let f = \<lfloor>z\<rfloor>; r = z - of_int f
      in if r < 1 / 2 then f else if 1 / 2 < r then f + 1 else if even f then f else f + 1)"

text \<open>
  The exponent \<open>e\<close> of the binade \<open>[2\<^sup>e, 2\<^sup>e\<^sup>+\<^sup>1)\<close> that holds \<open>|x|\<close>, kept within the
  exponent range of binary64: below \<open>2\<^sup>-\<^sup>1\<^sup>0\<^sup>2\<^sup>2\<close> the numbers are subnormal and share the
  exponent -1022.
\<close>

definition binade :: "real \<Rightarrow> int" where
  "binade x =
     (if \<bar>x\<bar> < 2 powi (- 1022) then - 1022
      else Max {e \<in> {- 1022 .. 1023}. 2 powi e \<le> \<bar>x\<bar>})"

text \<open>
  The binary64 value nearest to \<open>x\<close>: a multiple of the unit \<open>2\<^sup>e\<^sup>-\<^sup>5\<^sup>2\<close> of the binade
  of \<open>x\<close>. A result of magnitude \<open>2\<^sup>1\<^sup>0\<^sup>2\<^sup>4\<close> is an overflow.
\<close>

definition round64 :: "real \<Rightarrow> number" where
  "round64 x =
     (let u = 2 powi (binade x - 52);
          y = of_int (round_even (x / u)) * u
      in if 2 ^ 1024 \<le> \<bar>y\<bar> then (if 0 < x then PInf else NInf) else Num y)"

text \<open>A decimal literal of the source denotes the binary64 value nearest to it.\<close>

definition lit :: "real \<Rightarrow> number" where
  "lit x = round64 x"

subsection \<open>Operators and library functions\<close>

fun isNaN :: "number \<Rightarrow> bool" where
  "isNaN NaN = True"
| "isNaN _ = False"

text \<open>The sign of a number that is not NaN, and the infinity of a given sign.\<close>

fun sign_of :: "number \<Rightarrow> real" where
  "sign_of NaN = 0"
| "sign_of PInf = 1"
| "sign_of NInf = - 1"
| "sign_of (Num a) = sgn a"

definition signed_inf :: "real \<Rightarrow> number" where
  "signed_inf s = (if s = 0 then NaN else if 0 < s then PInf else NInf)"

text \<open>\<^verbatim>\<open>x + y\<close>: opposite infinities cancel to NaN.\<close>

fun js_add :: "number \<Rightarrow> number \<Rightarrow> number" where
  "js_add NaN _ = NaN"
| "js_add _ NaN = NaN"
| "js_add PInf NInf = NaN"
| "js_add NInf PInf = NaN"
| "js_add PInf _ = PInf"
| "js_add _ PInf = PInf"
| "js_add NInf _ = NInf"
| "js_add _ NInf = NInf"
| "js_add (Num a) (Num b) = round64 (a + b)"

text \<open>Negation is exact.\<close>

fun js_neg :: "number \<Rightarrow> number" where
  "js_neg NaN = NaN"
| "js_neg PInf = NInf"
| "js_neg NInf = PInf"
| "js_neg (Num a) = Num (- a)"

definition js_sub :: "number \<Rightarrow> number \<Rightarrow> number" where
  "js_sub x y = js_add x (js_neg y)"

text \<open>\<^verbatim>\<open>x * y\<close>: an infinity times zero is NaN, otherwise the signs multiply.\<close>

fun js_mul :: "number \<Rightarrow> number \<Rightarrow> number" where
  "js_mul NaN _ = NaN"
| "js_mul _ NaN = NaN"
| "js_mul (Num a) (Num b) = round64 (a * b)"
| "js_mul x y = signed_inf (sign_of x * sign_of y)"

text \<open>
  \<^verbatim>\<open>x / y\<close>: infinity over infinity and zero over zero are NaN, a finite value over
  an infinity is zero, a non-zero value over zero is an infinity.
\<close>

fun js_div :: "number \<Rightarrow> number \<Rightarrow> number" where
  "js_div NaN _ = NaN"
| "js_div _ NaN = NaN"
| "js_div (Num a) (Num b) = (if b = 0 then signed_inf (sgn a) else round64 (a / b))"
| "js_div (Num a) _ = Num 0"
| "js_div x (Num b) = signed_inf (sign_of x * (if 0 \<le> b then 1 else - 1))"
| "js_div _ _ = NaN"

text \<open>\<^verbatim>\<open>x < y\<close>: false whenever an operand is NaN.\<close>

fun js_lt :: "number \<Rightarrow> number \<Rightarrow> bool" where
  "js_lt NaN _ = False"
| "js_lt _ NaN = False"
| "js_lt _ NInf = False"
| "js_lt PInf _ = False"
| "js_lt NInf _ = True"
| "js_lt _ PInf = True"
| "js_lt (Num a) (Num b) = (a < b)"

definition js_gt :: "number \<Rightarrow> number \<Rightarrow> bool" where
  "js_gt x y = js_lt y x"

text \<open>\<^verbatim>\<open>Math.max(x, y)\<close> and \<^verbatim>\<open>Math.min(x, y)\<close>: NaN if an argument is NaN.\<close>

fun Math_max :: "number \<Rightarrow> number \<Rightarrow> number" where
  "Math_max NaN _ = NaN"
| "Math_max _ NaN = NaN"
| "Math_max PInf _ = PInf"
| "Math_max _ PInf = PInf"
| "Math_max NInf y = y"
| "Math_max x NInf = x"
| "Math_max (Num a) (Num b) = Num (max a b)"

fun Math_min :: "number \<Rightarrow> number \<Rightarrow> number" where
  "Math_min NaN _ = NaN"
| "Math_min _ NaN = NaN"
| "Math_min NInf _ = NInf"
| "Math_min _ NInf = NInf"
| "Math_min PInf y = y"
| "Math_min x PInf = x"
| "Math_min (Num a) (Num b) = Num (min a b)"

text \<open>
  \<^verbatim>\<open>Math.pow(x, n)\<close> for a natural exponent \<open>n\<close>, as the correctly rounded power
  (ECMAScript leaves the accuracy of \<^verbatim>\<open>Math.pow\<close> to the implementation).
\<close>

fun Math_pow :: "number \<Rightarrow> nat \<Rightarrow> number" where
  "Math_pow (Num a) n = round64 (a ^ n)"
| "Math_pow NaN n = (if n = 0 then Num 1 else NaN)"
| "Math_pow PInf n = (if n = 0 then Num 1 else PInf)"
| "Math_pow NInf n = (if n = 0 then Num 1 else if even n then PInf else NInf)"

text \<open>\<^verbatim>\<open>x || 0\<close>: the falsy numbers, NaN and zero, give 0.\<close>

fun js_or0 :: "number \<Rightarrow> number" where
  "js_or0 NaN = Num 0"
| "js_or0 (Num a) = (if a = 0 then Num 0 else Num a)"
| "js_or0 x = x"

text \<open>
  \<^verbatim>\<open>parseFloat(x.toFixed(d))\<close>. \<^verbatim>\<open>toFixed\<close> prints the decimal with \<open>d\<close>
  fraction digits nearest to the exact value of \<open>x\<close>, taking the larger magnitude on a
  tie, so \<open>round_dp d\<close> rounds half away from zero; \<^verbatim>\<open>parseFloat\<close> reads the decimal
  back as the binary64 value nearest to it. NaN and the infinities are printed by name
  and read back. (From \<open>10\<^sup>2\<^sup>1\<close> on, \<^verbatim>\<open>toFixed\<close> prints the number itself; every
  binary64 value of that size is an integer, so this is the rounded value as well.)
\<close>

definition round_dp :: "nat \<Rightarrow> real \<Rightarrow> real" where
  "round_dp d x = sgn x * of_int \<lfloor>\<bar>x\<bar> * 10 ^ d + 1 / 2\<rfloor> / 10 ^ d"

fun parseFloat_toFixed :: "nat \<Rightarrow> number \<Rightarrow> number" where
  "parseFloat_toFixed d (Num x) = round64 (round_dp d x)"
| "parseFloat_toFixed d x = x"

section \<open>Result types\<close>

type_synonym Concentrations = "string \<rightharpoonup> number"

record SimulationResult =
  aqOut :: Concentrations
  orgOut :: Concentrations

record OptimizationResult =
  new_pH_setpoint :: number
  action :: string
  predicted_efficiency :: number

record ComplianceResult =
  total_conc_gl :: number
  is_compliant :: bool
  finding :: string

section \<open>Module 1: thermodynamic and kinetic core engine\<close>

text \<open>\<^verbatim>\<open>m[el] || 0\<close>: a missing key reads as \<^verbatim>\<open>undefined\<close>, which is falsy.\<close>

definition lookup_or0 :: "Concentrations \<Rightarrow> string \<Rightarrow> number" where
  "lookup_or0 m el = (case m el of None \<Rightarrow> Num 0 | Some v \<Rightarrow> js_or0 v)"

definition targetElements :: "string list" where
  "targetElements = [''Nd'', ''Fe'', ''Th'', ''U'']"

definition safe_ratio :: "number \<Rightarrow> number" where
  "safe_ratio phase_ratio =
     (let rVal = (if isNaN phase_ratio then Num 1 else phase_ratio)
      in Math_max (lit 0.0001) rVal)"

text \<open>The unrounded pair \<open>(Cout_aq, Cout_org)\<close> of one species.\<close>

definition stage_equilibrium ::
  "Concentrations \<Rightarrow> Concentrations \<Rightarrow> number \<Rightarrow> Concentrations \<Rightarrow> string \<Rightarrow> number \<times> number" where
  "stage_equilibrium aq_in_conc org_in_conc safeR D_values el =
     (let Cin_aq = Math_max (Num 0) (lookup_or0 aq_in_conc el);
          Cin_org = Math_max (Num 0) (lookup_or0 org_in_conc el);
          D = Math_max (Num 0) (lookup_or0 D_values el);
          denominator = js_add (Num 1) (js_mul safeR D);
          Cout_aq = js_div (js_add Cin_aq (js_mul safeR Cin_org)) denominator;
          Cout_org = js_mul D Cout_aq
      in (Cout_aq, Cout_org))"

text \<open>The body of the \<^verbatim>\<open>forEach\<close>: both output objects get the key \<open>el\<close>.\<close>

definition stage_body ::
  "Concentrations \<Rightarrow> Concentrations \<Rightarrow> number \<Rightarrow> Concentrations \<Rightarrow> string
     \<Rightarrow> SimulationResult \<Rightarrow> SimulationResult" where
  "stage_body aq_in_conc org_in_conc safeR D_values el res =
     (case stage_equilibrium aq_in_conc org_in_conc safeR D_values el of
        (Cout_aq, Cout_org) \<Rightarrow>
          \<lparr>aqOut = (aqOut res)(el \<mapsto> parseFloat_toFixed 4 Cout_aq),
           orgOut = (orgOut res)(el \<mapsto> parseFloat_toFixed 4 Cout_org)\<rparr>)"

definition simulate_sx_stage ::
  "Concentrations \<Rightarrow> Concentrations \<Rightarrow> number \<Rightarrow> Concentrations \<Rightarrow> SimulationResult" where
  "simulate_sx_stage aq_in_conc org_in_conc phase_ratio D_values =
     fold (stage_body aq_in_conc org_in_conc (safe_ratio phase_ratio) D_values)
       targetElements \<lparr>aqOut = Map.empty, orgOut = Map.empty\<rparr>"

section \<open>Module 2: setpoint optimizer\<close>

text \<open>
  \<^verbatim>\<open>Math.random()\<close> is the only impure call of the core; its draw is the explicit
  argument \<open>rnd\<close>, a real in \<open>[0, 1)\<close>. An omitted optional argument is \<open>None\<close>
  and takes the default of the signature.
\<close>

definition optimizer_noise :: "real \<Rightarrow> bool \<Rightarrow> number" where
  "optimizer_noise rnd deterministic =
     (if deterministic then Num 0 else js_mul (js_sub (Num rnd) (Num 0.5)) (lit 0.05))"

definition prescriptive_setpoint_optimizer ::
  "real \<Rightarrow> number \<Rightarrow> number option \<Rightarrow> bool option \<Rightarrow> OptimizationResult" where
  "prescriptive_setpoint_optimizer rnd current_pH target_arg deterministic_arg =
     (let target_optimal_pH = (case target_arg of None \<Rightarrow> lit 1.8 | Some t \<Rightarrow> t);
          deterministic = (case deterministic_arg of None \<Rightarrow> False | Some b \<Rightarrow> b);
          cPH = (if isNaN current_pH then Num 0 else current_pH);
          tPH = (if isNaN target_optimal_pH then lit 1.8 else target_optimal_pH);
          noise = optimizer_noise rnd deterministic;
          efficiency =
            js_add (js_sub (lit 0.8) (js_mul (lit 0.2) (Math_pow (js_sub cPH tPH) 2))) noise;
          delta = js_sub tPH cPH;
          correction_step = js_mul delta (Num 0.5);
          new_setpoint = parseFloat_toFixed 2 (js_add cPH correction_step);
          act = (if js_gt correction_step (lit 0.01) then ''Increase Acid/Base Flow (Raise pH)''
                 else if js_lt correction_step (js_neg (lit 0.01))
                   then ''Adjust Acid/Base Flow (Lower pH)''
                 else ''Maintain pH'')
      in \<lparr>new_pH_setpoint = new_setpoint,
          action = act,
          predicted_efficiency = Math_max (Num 0) (Math_min (Num 1) efficiency)\<rparr>)"

section \<open>Module 3: Th/U compliance\<close>

definition check_th_u_compliance ::
  "number \<Rightarrow> number \<Rightarrow> number option \<Rightarrow> ComplianceResult" where
  "check_th_u_compliance th_conc u_conc limit_arg =
     (let limit = (case limit_arg of None \<Rightarrow> lit 0.1 | Some l \<Rightarrow> l);
          safeTh = Math_max (Num 0) (js_or0 th_conc);
          safeU = Math_max (Num 0) (js_or0 u_conc);
          safeLimit = (if isNaN limit then lit 0.1 else limit);
          total = js_add safeTh safeU;
          compliant = js_lt total safeLimit
      in \<lparr>total_conc_gl = parseFloat_toFixed 4 total,
          is_compliant = compliant,
          finding = (if compliant then ''Meets NCMM Th/U safety requirements.''
                     else ''EXCEEDS Regulatory Limit. Adjust flowsheet.'')\<rparr>)"

section \<open>The sanitisation rules in the words of the specification\<close>

text \<open>
  A concentration or coefficient that is NaN or negative counts as 0; a missing key
  counts as 0 as well.
\<close>

fun sanitize_conc :: "number \<Rightarrow> number" where
  "sanitize_conc NaN = Num 0"
| "sanitize_conc NInf = Num 0"
| "sanitize_conc PInf = PInf"
| "sanitize_conc (Num a) = (if a < 0 then Num 0 else Num a)"

fun clamp0 :: "number option \<Rightarrow> number" where
  "clamp0 None = Num 0"
| "clamp0 (Some v) = sanitize_conc v"

text \<open>A limit that is omitted or NaN is the default 0.1; any other limit is kept.\<close>

fun sanitize_limit :: "number option \<Rightarrow> number" where
  "sanitize_limit None = lit 0.1"
| "sanitize_limit (Some NaN) = lit 0.1"
| "sanitize_limit (Some l) = l"

text \<open>\<^verbatim>\<open>x <= y\<close>, used to state bounds on arguments.\<close>

fun js_le :: "number \<Rightarrow> number \<Rightarrow> bool" where
  "js_le NaN _ = False"
| "js_le _ NaN = False"
| "js_le NInf _ = True"
| "js_le _ PInf = True"
| "js_le _ NInf = False"
| "js_le PInf _ = False"
| "js_le (Num a) (Num b) = (a \<le> b)"

text \<open>
  The optimizer replaces a NaN current pH by 0, and a target pH that is omitted or NaN
  by 1.8. The step is half the way from the current pH to the target.
\<close>

fun sanitize_current :: "number \<Rightarrow> number" where
  "sanitize_current NaN = Num 0"
| "sanitize_current c = c"

fun sanitize_target :: "number option \<Rightarrow> number" where
  "sanitize_target None = lit 1.8"
| "sanitize_target (Some NaN) = lit 1.8"
| "sanitize_target (Some t) = t"

definition setpoint_step :: "number \<Rightarrow> number option \<Rightarrow> number" where
  "setpoint_step cur tgt = js_mul (Num 0.5) (js_sub (sanitize_target tgt) (sanitize_current cur))"

text \<open>
  The equilibrium formula on reals: \<open>Cout_aq = (Cin_aq + R * Cin_org) / (1 + R * D)\<close>.
\<close>

definition Cout_aq_formula :: "real \<Rightarrow> real \<Rightarrow> real \<Rightarrow> real \<Rightarrow> real" where
  "Cout_aq_formula a b R d = (a + R * b) / (1 + R * d)"

text \<open>
  A finite number that is at most a bound, and a number that is NaN, \<open>+Infinity\<close> or
  finite and at least 0.
\<close>

definition at_most :: "real \<Rightarrow> number \<Rightarrow> bool" where
  "at_most B v = (case v of Num x \<Rightarrow> x \<le> B | _ \<Rightarrow> False)"

definition not_negative :: "number \<Rightarrow> bool" where
  "not_negative v = (case v of Num x \<Rightarrow> 0 \<le> x | NInf \<Rightarrow> False | _ \<Rightarrow> True)"

section \<open>Auxiliary facts\<close>

subsection \<open>Rounding to an integer\<close>

lemma round_even_near: "\<bar>of_int (round_even z) - z\<bar> \<le> 1 / 2"
  unfolding round_even_def Let_def by (auto; linarith)

lemma round_even_of_int: "round_even (of_int n) = n"
  by (simp add: round_even_def)

lemma round_even_ge: "of_int n \<le> z \<Longrightarrow> n \<le> round_even z"
proof -
  assume "of_int n \<le> z"
  hence "n \<le> \<lfloor>z\<rfloor>" by (simp add: le_floor_iff)
  thus ?thesis unfolding round_even_def Let_def by auto
qed

lemma round_even_le: "z \<le> of_int n \<Longrightarrow> round_even z \<le> n"
proof (cases "z = of_int n")
  case True
  then show ?thesis by (simp add: round_even_of_int)
next
  case False
  assume "z \<le> of_int n"
  with False have "z < of_int n" by simp
  hence "\<lfloor>z\<rfloor> < n" by (simp add: floor_less_iff)
  thus ?thesis unfolding round_even_def Let_def by auto
qed

lemma round_even_abs_le: "\<bar>z\<bar> \<le> of_int n \<Longrightarrow> \<bar>round_even z\<bar> \<le> n"
proof -
  assume a: "\<bar>z\<bar> \<le> of_int n"
  hence "z \<le> of_int n" "of_int (- n) \<le> z" by auto
  hence "round_even z \<le> n" "- n \<le> round_even z"
    using round_even_le round_even_ge by blast+
  thus ?thesis by linarith
qed

subsection \<open>The binade\<close>

lemma pow2_le_imp_le: "(2::real) powi a \<le> 2 powi b \<Longrightarrow> a \<le> b"
proof (rule ccontr)
  assume le: "(2::real) powi a \<le> 2 powi b" and "\<not> a \<le> b"
  hence "b < a" by simp
  hence "(2::real) powi b < 2 powi a" by (intro power_int_strict_increasing) auto
  thus False using le by linarith
qed

lemma binade_eq:
  assumes "2 powi e \<le> \<bar>x\<bar>" "\<bar>x\<bar> < 2 powi (e + 1)" "- 1022 \<le> e" "e \<le> 1023"
  shows "binade x = e"
proof -
  have "(2::real) powi (- 1022) \<le> 2 powi e"
    using assms(3) by (intro power_int_increasing) auto
  hence nb: "\<not> \<bar>x\<bar> < 2 powi (- 1022)" using assms(1) by linarith
  have "Max {e \<in> {- 1022 .. 1023}. (2::real) powi e \<le> \<bar>x\<bar>} = e"
  proof (rule Max_eqI)
    show "finite {e \<in> {- 1022 .. 1023}. (2::real) powi e \<le> \<bar>x\<bar>}"
      by (rule finite_subset [of _ "{- 1022 .. 1023}"]) auto
    show "e \<in> {e \<in> {- 1022 .. 1023}. (2::real) powi e \<le> \<bar>x\<bar>}" using assms by simp
    fix k assume "k \<in> {e \<in> {- 1022 .. 1023}. (2::real) powi e \<le> \<bar>x\<bar>}"
    hence k: "(2::real) powi k \<le> \<bar>x\<bar>" by simp
    show "k \<le> e"
    proof (rule ccontr)
      assume "\<not> k \<le> e"
      hence "e + 1 \<le> k" by simp
      hence "(2::real) powi (e + 1) \<le> 2 powi k" by (intro power_int_increasing) auto
      thus False using k assms(2) by linarith
    qed
  qed
  thus ?thesis using nb by (simp add: binade_def)
qed

lemma binade_range: "- 1022 \<le> binade x \<and> binade x \<le> 1023"
proof (cases "\<bar>x\<bar> < 2 powi (- 1022)")
  case True
  then show ?thesis by (simp add: binade_def)
next
  case False
  let ?S = "{e \<in> {- 1022 .. 1023}. (2::real) powi e \<le> \<bar>x\<bar>}"
  have f: "finite ?S" by (rule finite_subset [of _ "{- 1022 .. 1023}"]) auto
  have ne: "?S \<noteq> {}" using False by (auto intro: exI [of _ "- 1022"])
  have "Max ?S \<in> ?S" using f ne by (rule Max_in)
  thus ?thesis using False by (simp add: binade_def)
qed

lemma binade_lower: "2 powi (- 1022) \<le> \<bar>x\<bar> \<Longrightarrow> 2 powi (binade x) \<le> \<bar>x\<bar>"
proof -
  assume a: "2 powi (- 1022) \<le> \<bar>x\<bar>"
  let ?S = "{e \<in> {- 1022 .. 1023}. (2::real) powi e \<le> \<bar>x\<bar>}"
  have f: "finite ?S" by (rule finite_subset [of _ "{- 1022 .. 1023}"]) auto
  have ne: "?S \<noteq> {}" using a by (auto intro: exI [of _ "- 1022"])
  have "Max ?S \<in> ?S" using f ne by (rule Max_in)
  thus ?thesis using a by (simp add: binade_def)
qed

lemma binade_ge: "2 powi k \<le> \<bar>x\<bar> \<Longrightarrow> - 1022 \<le> k \<Longrightarrow> k \<le> 1023 \<Longrightarrow> k \<le> binade x"
proof -
  assume a: "2 powi k \<le> \<bar>x\<bar>" and k: "- 1022 \<le> k" "k \<le> 1023"
  let ?S = "{e \<in> {- 1022 .. 1023}. (2::real) powi e \<le> \<bar>x\<bar>}"
  have f: "finite ?S" by (rule finite_subset [of _ "{- 1022 .. 1023}"]) auto
  have "(2::real) powi (- 1022) \<le> 2 powi k"
    using k by (intro power_int_increasing) auto
  hence nb: "\<not> \<bar>x\<bar> < 2 powi (- 1022)" using a by linarith
  have "k \<in> ?S" using a k by simp
  hence "k \<le> Max ?S" using f by (rule Max_ge [rotated])
  thus ?thesis using nb by (simp add: binade_def)
qed

lemma binade_le: "\<bar>x\<bar> \<le> 2 powi k \<Longrightarrow> - 1022 \<le> k \<Longrightarrow> binade x \<le> k"
proof (cases "\<bar>x\<bar> < 2 powi (- 1022)")
  case True
  assume "- 1022 \<le> k"
  then show ?thesis using True by (simp add: binade_def)
next
  case False
  assume a: "\<bar>x\<bar> \<le> 2 powi k"
  have "2 powi (binade x) \<le> \<bar>x\<bar>" using False by (intro binade_lower) simp
  hence "(2::real) powi (binade x) \<le> 2 powi k" using a by linarith
  thus ?thesis by (rule pow2_le_imp_le)
qed

subsection \<open>Rounding to binary64\<close>

text \<open>
  With the binade known, the rounded value is computed directly; this is how the
  concrete cases below are evaluated.
\<close>

lemma round64_at:
  assumes "2 powi e \<le> \<bar>x\<bar>" "\<bar>x\<bar> < 2 powi (e + 1)" "- 1022 \<le> e" "e \<le> 1023"
  shows "round64 x =
     (let u = 2 powi (e - 52);
          y = of_int (round_even (x / u)) * u
      in if 2 ^ 1024 \<le> \<bar>y\<bar> then (if 0 < x then PInf else NInf) else Num y)"
  by (simp add: round64_def binade_eq [OF assms])

lemma round64_zero: "round64 0 = Num 0"
  by (simp add: round64_def round_even_def)

lemma round64_not_NaN: "round64 x \<noteq> NaN"
  by (simp add: round64_def Let_def)

lemma round64_nonneg:
  assumes "0 \<le> x"
  shows "round64 x = PInf \<or> (\<exists>y. round64 x = Num y \<and> 0 \<le> y)"
proof -
  define u :: real where "u = 2 powi (binade x - 52)"
  have u: "0 < u" unfolding u_def by simp
  have "of_int 0 \<le> x / u" using assms u by simp
  hence m: "0 \<le> round_even (x / u)" by (rule round_even_ge)
  define y where "y = of_int (round_even (x / u)) * u"
  have y: "0 \<le> y" unfolding y_def using m u by simp
  have r: "round64 x = (if 2 ^ 1024 \<le> \<bar>y\<bar> then (if 0 < x then PInf else NInf) else Num y)"
    unfolding round64_def Let_def u_def [symmetric] y_def [symmetric] ..
  show ?thesis
  proof (cases "2 ^ 1024 \<le> \<bar>y\<bar>")
    case True
    have "x \<noteq> 0"
    proof
      assume "x = 0"
      hence "y = 0" unfolding y_def by (simp add: round_even_def)
      thus False using True by simp
    qed
    hence "0 < x" using assms by simp
    thus ?thesis using r True by simp
  next
    case False
    thus ?thesis using r y by simp
  qed
qed

lemma round64_bounded:
  assumes x: "\<bar>x\<bar> \<le> 2 powi k" and k: "- 1022 \<le> k" "k \<le> 1023"
  shows "\<exists>y. round64 x = Num y \<and> \<bar>y\<bar> \<le> 2 powi k"
proof -
  define e where "e = binade x"
  define u :: real where "u = 2 powi (e - 52)"
  have u: "0 < u" unfolding u_def by simp
  have ek: "e \<le> k" unfolding e_def using x k(1) by (rule binade_le)
  define n where "n = nat (k - e + 52)"
  have q: "2 powi k / u = of_int (2 ^ n)"
  proof -
    have "2 powi k / u = (2::real) powi (k - (e - 52))"
      unfolding u_def by (simp add: power_int_diff)
    also have "\<dots> = 2 ^ n"
      unfolding n_def using ek by (simp add: power_int_nonneg_exp algebra_simps)
    finally show ?thesis by simp
  qed
  have "\<bar>x / u\<bar> \<le> 2 powi k / u"
    using x u by (simp add: divide_right_mono)
  hence "\<bar>x / u\<bar> \<le> of_int (2 ^ n)" using q by simp
  hence m: "\<bar>round_even (x / u)\<bar> \<le> 2 ^ n" by (rule round_even_abs_le)
  define y where "y = of_int (round_even (x / u)) * u"
  have "\<bar>y\<bar> = of_int \<bar>round_even (x / u)\<bar> * u"
    unfolding y_def using u by (simp add: abs_mult)
  also have "\<dots> \<le> of_int (2 ^ n) * u"
  proof (rule mult_right_mono)
    show "real_of_int \<bar>round_even (x / u)\<bar> \<le> real_of_int (2 ^ n)"
      using m by (simp only: of_int_le_iff)
    show "0 \<le> u" using u by simp
  qed
  also have "\<dots> = 2 powi k" using q u by (simp add: field_simps)
  finally have yk: "\<bar>y\<bar> \<le> 2 powi k" .
  have "(2::real) powi k \<le> 2 powi 1023"
    using k(2) by (intro power_int_increasing) auto
  also have "\<dots> < 2 ^ 1024" by simp
  finally have "\<not> 2 ^ 1024 \<le> \<bar>y\<bar>" using yk by linarith
  moreover have "round64 x = (if 2 ^ 1024 \<le> \<bar>y\<bar> then (if 0 < x then PInf else NInf) else Num y)"
    unfolding round64_def Let_def e_def [symmetric] u_def [symmetric] y_def [symmetric] ..
  ultimately show ?thesis using yk by simp
qed

lemma round64_ge_pow2:
  assumes x: "2 powi k \<le> x" and k: "- 1022 \<le> k" "k \<le> 1023"
  shows "round64 x = PInf \<or> (\<exists>y. round64 x = Num y \<and> 2 powi k \<le> y)"
proof -
  have xpos: "0 < x" using x by (rule less_le_trans [rotated]) simp
  hence ax: "\<bar>x\<bar> = x" by simp
  define e where "e = binade x"
  define u :: real where "u = 2 powi (e - 52)"
  have u: "0 < u" unfolding u_def by simp
  have ke: "k \<le> e" unfolding e_def using x k ax binade_ge [of k x] by simp
  have "(2::real) powi (- 1022) \<le> 2 powi k"
    using k(1) by (intro power_int_increasing) auto
  hence "2 powi (- 1022) \<le> \<bar>x\<bar>" using x ax by linarith
  hence lo: "2 powi e \<le> x" unfolding e_def using binade_lower [of x] ax by simp
  have q: "2 powi e / u = of_int (2 ^ 52)"
  proof -
    have "2 powi e / u = (2::real) powi (e - (e - 52))"
      unfolding u_def by (simp add: power_int_diff)
    thus ?thesis by simp
  qed
  have "2 powi e / u \<le> x / u" using lo u by (simp add: divide_right_mono)
  hence "of_int (2 ^ 52) \<le> x / u" using q by simp
  hence m: "2 ^ 52 \<le> round_even (x / u)" by (rule round_even_ge)
  define y where "y = of_int (round_even (x / u)) * u"
  have "2 powi e = of_int (2 ^ 52) * u" using q u by (simp add: field_simps)
  also have "\<dots> \<le> y"
    unfolding y_def
  proof (rule mult_right_mono)
    show "real_of_int (2 ^ 52) \<le> real_of_int (round_even (x / u))"
      using m by (simp only: of_int_le_iff)
    show "0 \<le> u" using u by simp
  qed
  finally have "2 powi e \<le> y" .
  moreover have "(2::real) powi k \<le> 2 powi e"
    using ke by (intro power_int_increasing) auto
  ultimately have yk: "2 powi k \<le> y" by linarith
  have "round64 x = (if 2 ^ 1024 \<le> \<bar>y\<bar> then (if 0 < x then PInf else NInf) else Num y)"
    unfolding round64_def Let_def e_def [symmetric] u_def [symmetric] y_def [symmetric] ..
  thus ?thesis using yk xpos by simp
qed

lemma round64_ge_1: "1 \<le> x \<Longrightarrow> round64 x = PInf \<or> (\<exists>y. round64 x = Num y \<and> 1 \<le> y)"
  using round64_ge_pow2 [of 0 x] by simp

lemma round64_value:
  assumes "2 powi e \<le> \<bar>x\<bar>" "\<bar>x\<bar> < 2 powi (e + 1)" "- 1022 \<le> e" "e \<le> 1022"
  shows "round64 x = Num (of_int (round_even (x / 2 powi (e - 52))) * 2 powi (e - 52))"
proof -
  have "\<bar>x\<bar> \<le> 2 powi (e + 1)" using assms(2) by simp
  then obtain y where y: "round64 x = Num y"
    using round64_bounded [of x "e + 1"] assms(3,4) by auto
  have "e \<le> 1023" using assms(4) by simp
  note at = round64_at [OF assms(1,2,3) this]
  show ?thesis
  proof (cases "(2::real) ^ 1024 \<le> \<bar>of_int (round_even (x / 2 powi (e - 52))) * 2 powi (e - 52)\<bar>")
    case True
    thus ?thesis using at y by (simp add: Let_def split: if_splits)
  next
    case False
    thus ?thesis using at by (simp add: Let_def)
  qed
qed

text \<open>
  The rounding error is at most half a unit of the binade, and a value of magnitude
  \<open>2\<^sup>1\<^sup>0\<^sup>2\<^sup>4\<close> or more overflows.
\<close>

lemma round64_approx:
  assumes x: "\<bar>x\<bar> \<le> 2 powi k" and k: "- 1022 \<le> k" "k \<le> 1023"
  shows "\<exists>y. round64 x = Num y \<and> \<bar>y\<bar> \<le> 2 powi k \<and> \<bar>y - x\<bar> \<le> 2 powi (k - 53)"
proof -
  obtain y where y: "round64 x = Num y" "\<bar>y\<bar> \<le> 2 powi k"
    using round64_bounded [OF x k] by blast
  define e where "e = binade x"
  define u :: real where "u = 2 powi (e - 52)"
  have u: "0 < u" unfolding u_def by simp
  have ek: "e \<le> k" unfolding e_def using x k(1) by (rule binade_le)
  define z where "z = of_int (round_even (x / u)) * u"
  have "round64 x = (if 2 ^ 1024 \<le> \<bar>z\<bar> then (if 0 < x then PInf else NInf) else Num z)"
    unfolding round64_def Let_def e_def [symmetric] u_def [symmetric] z_def [symmetric] ..
  hence yz: "y = z" using y(1) by (simp split: if_splits)
  have "z - x = (of_int (round_even (x / u)) - x / u) * u"
    unfolding z_def using u by (simp add: field_simps)
  hence "\<bar>z - x\<bar> = \<bar>of_int (round_even (x / u)) - x / u\<bar> * u"
    using u by (simp add: abs_mult)
  also have "\<dots> \<le> (1 / 2) * u"
    using round_even_near [of "x / u"] u by (intro mult_right_mono) simp_all
  also have "\<dots> = 2 powi (e - 53)"
  proof -
    have "(2::real) powi (e - 52) = 2 powi (e - 53 + 1)" by simp
    also have "\<dots> = 2 powi (e - 53) * 2" by (subst power_int_add) simp_all
    finally show ?thesis unfolding u_def by simp
  qed
  also have "\<dots> \<le> 2 powi (k - 53)"
    using ek by (intro power_int_increasing) auto
  finally show ?thesis using y yz by blast
qed

lemma round64_nonneg_approx:
  assumes "0 \<le> x" "x \<le> 2 ^ n" "n \<le> 1023"
  shows "\<exists>y. round64 x = Num y \<and> 0 \<le> y \<and> y \<le> 2 ^ n \<and> \<bar>y - x\<bar> \<le> 2 ^ n / 2 ^ 53"
proof -
  have "\<bar>x\<bar> \<le> 2 powi (int n)" using assms(1,2) by simp
  then obtain y where y: "round64 x = Num y" "\<bar>y\<bar> \<le> 2 powi (int n)"
      "\<bar>y - x\<bar> \<le> 2 powi (int n - 53)"
    using round64_approx [of x "int n"] assms(3) by auto
  have "(2::real) powi (int n - 53) = 2 ^ n / 2 ^ 53"
    by (simp add: power_int_diff)
  moreover have "0 \<le> y" using round64_nonneg [OF assms(1)] y(1) by simp
  ultimately show ?thesis using y by auto
qed

lemma round64_finite_nonneg:
  assumes "0 \<le> x" "x \<le> 2 ^ n" "n \<le> 1023"
  shows "\<exists>y. round64 x = Num y \<and> 0 \<le> y \<and> y \<le> 2 ^ n"
  using round64_nonneg_approx [OF assms] by blast

lemma round64_overflow:
  assumes "2 ^ 1024 \<le> x"
  shows "round64 x = PInf"
proof -
  have xpos: "0 < x" using assms by (rule less_le_trans [rotated]) simp
  have "(2::real) powi 1023 \<le> 2 ^ 1024" by simp
  hence "2 powi 1023 \<le> \<bar>x\<bar>" using assms xpos by linarith
  hence "1023 \<le> binade x" by (rule binade_ge) simp_all
  hence e: "binade x = 1023" using binade_range [of x] by simp
  define u :: real where "u = 2 powi (1023 - 52)"
  have u: "0 < u" unfolding u_def by simp
  have q: "2 ^ 1024 / u = of_int (2 ^ 53)" unfolding u_def by simp
  have "2 ^ 1024 / u \<le> x / u" using assms u by (simp add: divide_right_mono)
  hence "of_int (2 ^ 53) \<le> x / u" using q by simp
  hence m: "2 ^ 53 \<le> round_even (x / u)" by (rule round_even_ge)
  define y where "y = of_int (round_even (x / u)) * u"
  have "2 ^ 1024 = of_int (2 ^ 53) * u" using q u by (simp add: field_simps)
  also have "\<dots> \<le> y"
    unfolding y_def
  proof (rule mult_right_mono)
    show "real_of_int (2 ^ 53) \<le> real_of_int (round_even (x / u))"
      using m by (simp only: of_int_le_iff)
    show "0 \<le> u" using u by simp
  qed
  finally have "2 ^ 1024 \<le> \<bar>y\<bar>" by simp
  moreover have "round64 x = (if 2 ^ 1024 \<le> \<bar>y\<bar> then (if 0 < x then PInf else NInf) else Num y)"
    unfolding round64_def Let_def e u_def [symmetric] y_def [symmetric] ..
  ultimately show ?thesis using xpos by simp
qed

lemmas evaluate64 = lit_def round64_zero round_even_def round_dp_def Let_def

lemma round64_one: "round64 1 = Num 1"
  by (simp add: evaluate64 round64_value [where e = 0])

lemma isNaN_lit: "\<not> isNaN (lit x)"
  by (simp add: lit_def round64_def Let_def)

lemma lit_0_0001: "lit 0.0001 = Num (7378697629483821 / 73786976294838206464)"
  by (simp add: evaluate64 round64_value [where e = "- 14"])

lemma lit_0_05: "lit 0.05 = Num (3602879701896397 / 72057594037927936)"
  by (simp add: evaluate64 round64_value [where e = "- 5"])

lemma lit_0_2: "lit 0.2 = Num (3602879701896397 / 18014398509481984)"
  by (simp add: evaluate64 round64_value [where e = "- 3"])

lemma lit_0_8: "lit 0.8 = Num (3602879701896397 / 4503599627370496)"
  by (simp add: evaluate64 round64_value [where e = "- 1"])

lemma lit_1e308: "lit (10 ^ 308) = Num 100000000000000001097906362944045541740492309677311846336810682903157585404911491537163328978494688899061249669721172515611590283743140088328307009198146046031271664502933027185697489699588559043338384466165001178426897626212945177628091195786707458122783970171784415105291802893207873272974885715430223118336"
  by (simp add: lit_def round64_at [where e = 1023] round_even_def Let_def)

subsection \<open>Operators\<close>

lemma js_lt_irrefl: "\<not> js_lt x x"
  by (cases x) simp_all

lemma js_mul_commute: "js_mul x y = js_mul y x"
  by (cases x; cases y) (simp_all add: mult.commute)

lemma js_add_NaN_right: "js_add x NaN = NaN"
  by (cases x) simp_all

lemma js_mul_NaN_right: "js_mul x NaN = NaN"
  by (cases x) simp_all

lemma js_neg_not_NaN: "m \<noteq> NaN \<Longrightarrow> js_neg m \<noteq> NaN"
  by (cases m) simp_all

lemma js_add_Num_not_NaN: "m \<noteq> NaN \<Longrightarrow> js_add (Num c) m \<noteq> NaN"
  by (cases m) (simp_all add: round64_not_NaN)

lemma js_add_not_NaN_Num: "s \<noteq> NaN \<Longrightarrow> js_add s (Num n) \<noteq> NaN"
  by (cases s) (simp_all add: round64_not_NaN)

lemma js_mul_pos_not_NaN: "0 < l \<Longrightarrow> p \<noteq> NaN \<Longrightarrow> js_mul (Num l) p \<noteq> NaN"
  by (cases p) (simp_all add: round64_not_NaN signed_inf_def)

lemma Math_pow_not_NaN: "x \<noteq> NaN \<Longrightarrow> Math_pow x 2 \<noteq> NaN"
  by (cases x) (simp_all add: round64_not_NaN)

lemma js_sub_NaN_iff:
  "x \<noteq> NaN \<Longrightarrow> y \<noteq> NaN \<Longrightarrow>
     (js_sub x y = NaN) = (x = PInf \<and> y = PInf \<or> x = NInf \<and> y = NInf)"
  by (cases x; cases y) (simp_all add: js_sub_def round64_not_NaN)

lemma abs_mult_le: "\<bar>u\<bar> \<le> U \<Longrightarrow> \<bar>v\<bar> \<le> V \<Longrightarrow> \<bar>u * v :: real\<bar> \<le> U * V"
  unfolding abs_mult by (rule mult_mono) simp_all

subsection \<open>Rounding to a fixed number of decimals\<close>

lemma floor_half_near: "\<bar>of_int \<lfloor>y + 1 / 2\<rfloor> - y\<bar> \<le> 1 / (2::real)"
  by linarith

lemma round_dp_error: "\<bar>round_dp d x - x\<bar> \<le> 1 / (2 * 10 ^ d)"
proof -
  define y where "y = \<bar>x\<bar> * 10 ^ d"
  define n where "n = \<lfloor>y + 1 / 2\<rfloor>"
  have p: "(0::real) < 10 ^ d" by simp
  have near: "\<bar>of_int n - y\<bar> \<le> 1 / 2"
    unfolding n_def by (rule floor_half_near)
  have x_eq: "x = sgn x * y / 10 ^ d"
    unfolding y_def by (simp add: sgn_mult_abs)
  have "round_dp d x - x = sgn x * (of_int n - y) / 10 ^ d"
    using p x_eq[symmetric] unfolding round_dp_def n_def[symmetric] y_def[symmetric]
    by (simp add: field_simps)
  hence "\<bar>round_dp d x - x\<bar> = \<bar>sgn x\<bar> * \<bar>of_int n - y\<bar> / 10 ^ d"
    by (simp add: abs_mult)
  also have "\<dots> \<le> 1 * (1 / 2) / 10 ^ d"
    using near p by (intro divide_right_mono mult_mono) (auto simp: abs_sgn_eq)
  finally show ?thesis by simp
qed

lemma round_dp_4_error: "\<bar>round_dp 4 x - x\<bar> \<le> 1 / 20000"
  using round_dp_error [of 4 x] by simp

lemma round_dp_nonneg: "0 \<le> x \<Longrightarrow> 0 \<le> round_dp d x"
proof -
  assume nn: "0 \<le> x"
  have "0 \<le> \<bar>x\<bar> * 10 ^ d + 1 / 2" by simp
  hence "0 \<le> \<lfloor>\<bar>x\<bar> * 10 ^ d + 1 / 2\<rfloor>" by simp
  thus ?thesis using nn unfolding round_dp_def
    by (simp add: sgn_if)
qed

lemma round_dp_zero: "round_dp d 0 = 0"
  by (simp add: round_dp_def)

lemma round_dp_grid: "\<exists>k::int. round_dp d x = of_int k / 10 ^ d"
proof (cases "0 \<le> x")
  case True
  then show ?thesis unfolding round_dp_def
    by (cases "x = 0") (auto simp: sgn_if intro: exI[of _ 0])
next
  case False
  hence "round_dp d x = of_int (- \<lfloor>\<bar>x\<bar> * 10 ^ d + 1 / 2\<rfloor>) / 10 ^ d"
    unfolding round_dp_def by (simp add: sgn_if)
  then show ?thesis by blast
qed

subsection \<open>Sanitisation\<close>

lemma Math_max_or0: "Math_max (Num 0) (js_or0 x) = sanitize_conc x"
  by (cases x) (auto simp: max_def)

lemma Math_max_lookup: "Math_max (Num 0) (lookup_or0 m el) = clamp0 (m el)"
  by (cases "m el") (simp_all add: lookup_or0_def Math_max_or0)

lemma clamp0_nonneg: "clamp0 v = Num a \<Longrightarrow> 0 \<le> a"
  by (cases v rule: clamp0.cases) (auto elim: sanitize_conc.elims split: if_splits)

lemma at_most_Num: "at_most B v \<Longrightarrow> \<exists>x. v = Num x \<and> x \<le> B"
  by (cases v) (simp_all add: at_most_def)

subsection \<open>Values that are never negative\<close>

lemma not_negative_cases: "not_negative v = (v = NaN \<or> v = PInf \<or> (\<exists>x. v = Num x \<and> 0 \<le> x))"
  by (cases v) (simp_all add: not_negative_def)

lemma not_negative_not_lt_0: "not_negative v \<Longrightarrow> \<not> js_lt v (Num 0)"
  by (cases v) (simp_all add: not_negative_def)

lemma not_negative_round64: "0 \<le> x \<Longrightarrow> not_negative (round64 x)"
  using round64_nonneg [of x] by (auto simp: not_negative_def)

lemma not_negative_round64_case:
  "0 \<le> x \<Longrightarrow> (case round64 x of Num y \<Rightarrow> 0 \<le> y | NInf \<Rightarrow> False | _ \<Rightarrow> True)"
  using not_negative_round64 [of x] by (simp add: not_negative_def)

lemma not_negative_add: "not_negative x \<Longrightarrow> not_negative y \<Longrightarrow> not_negative (js_add x y)"
  by (cases x; cases y) (simp_all add: not_negative_def not_negative_round64_case)

lemma not_negative_mul: "not_negative x \<Longrightarrow> not_negative y \<Longrightarrow> not_negative (js_mul x y)"
  by (cases x; cases y)
    (simp_all add: not_negative_def not_negative_round64_case signed_inf_def sgn_if)

lemma not_negative_div: "not_negative x \<Longrightarrow> not_negative y \<Longrightarrow> not_negative (js_div x y)"
  by (cases x; cases y)
    (simp_all add: not_negative_def not_negative_round64_case signed_inf_def sgn_if)

lemma not_negative_toFixed: "not_negative x \<Longrightarrow> not_negative (parseFloat_toFixed d x)"
  by (cases x) (simp_all add: not_negative_def not_negative_round64_case round_dp_nonneg)

lemma not_negative_sanitize_conc: "not_negative (sanitize_conc x)"
  by (cases x) (simp_all add: not_negative_def)

lemma not_negative_clamp0: "not_negative (clamp0 v)"
  by (cases v) (simp_all add: not_negative_sanitize_conc, simp add: not_negative_def)

lemma not_negative_one: "not_negative (Num 1)"
  by (simp add: not_negative_def)

subsection \<open>The phase ratio\<close>

lemma safe_ratio_NaN: "safe_ratio NaN = Num 1"
  unfolding safe_ratio_def lit_0_0001 by simp

lemma safe_ratio_real:
  "safe_ratio (Num p) = (if js_lt (Num p) (lit 0.0001) then lit 0.0001 else Num p)"
  unfolding safe_ratio_def lit_0_0001 by (simp add: max_def)

lemma safe_ratio_PInf: "safe_ratio PInf = PInf"
  unfolding safe_ratio_def lit_0_0001 by simp

lemma safe_ratio_NInf: "safe_ratio NInf = lit 0.0001"
  unfolding safe_ratio_def lit_0_0001 by simp

lemma safe_ratio_pos: "safe_ratio pr = Num R \<Longrightarrow> 0 < R"
  unfolding safe_ratio_def lit_0_0001 by (cases pr) auto

lemma safe_ratio_finite: "pr \<noteq> PInf \<Longrightarrow> \<exists>R. safe_ratio pr = Num R"
proof (cases pr)
  case NaN
  then show ?thesis using safe_ratio_NaN by blast
next
  case PInf
  assume "pr \<noteq> PInf"
  then show ?thesis using PInf by simp
next
  case NInf
  then show ?thesis using safe_ratio_NInf [unfolded lit_0_0001] by blast
next
  case (Num p)
  have "safe_ratio (Num p) = Num (max (7378697629483821 / 73786976294838206464) p)"
    unfolding safe_ratio_def lit_0_0001 by simp
  then show ?thesis using Num by blast
qed

lemma not_negative_safe_ratio: "not_negative (safe_ratio pr)"
  unfolding safe_ratio_def lit_0_0001 by (cases pr) (simp_all add: not_negative_def)

lemma not_negative_Cout_aq:
  "not_negative (js_div (js_add (clamp0 a) (js_mul (safe_ratio pr) (clamp0 b)))
       (js_add (Num 1) (js_mul (safe_ratio pr) (clamp0 d))))"
  by (intro not_negative_div not_negative_add not_negative_mul not_negative_clamp0
        not_negative_safe_ratio not_negative_one)

subsection \<open>The stage loop\<close>

text \<open>
  After the loop a visited key holds the rounded value of its own species, whatever
  the order of the visits; any other key is as before.
\<close>

lemma fold_stage_aqOut:
  "aqOut (fold (stage_body aq org R Dv) els res) el =
     (if el \<in> set els then Some (parseFloat_toFixed 4 (fst (stage_equilibrium aq org R Dv el)))
      else aqOut res el)"
  by (induction els arbitrary: res rule: rev_induct) (auto simp: stage_body_def split: prod.splits)

lemma fold_stage_orgOut:
  "orgOut (fold (stage_body aq org R Dv) els res) el =
     (if el \<in> set els then Some (parseFloat_toFixed 4 (snd (stage_equilibrium aq org R Dv el)))
      else orgOut res el)"
  by (induction els arbitrary: res rule: rev_induct) (auto simp: stage_body_def split: prod.splits)

lemma stage_equilibrium_clamp:
  "stage_equilibrium aq org R Dv el =
     (js_div (js_add (clamp0 (aq el)) (js_mul R (clamp0 (org el))))
        (js_add (Num 1) (js_mul R (clamp0 (Dv el)))),
      js_mul (clamp0 (Dv el))
        (js_div (js_add (clamp0 (aq el)) (js_mul R (clamp0 (org el))))
           (js_add (Num 1) (js_mul R (clamp0 (Dv el))))))"
  by (simp add: stage_equilibrium_def Let_def Math_max_lookup)

lemma simulate_aqOut:
  "aqOut (simulate_sx_stage aq org pr Dv) el =
     (if el \<in> set targetElements
      then Some (parseFloat_toFixed 4
        (js_div (js_add (clamp0 (aq el)) (js_mul (safe_ratio pr) (clamp0 (org el))))
           (js_add (Num 1) (js_mul (safe_ratio pr) (clamp0 (Dv el))))))
      else None)"
  by (simp add: simulate_sx_stage_def fold_stage_aqOut stage_equilibrium_clamp)

lemma simulate_orgOut:
  "orgOut (simulate_sx_stage aq org pr Dv) el =
     (if el \<in> set targetElements
      then Some (parseFloat_toFixed 4
        (js_mul (clamp0 (Dv el))
           (js_div (js_add (clamp0 (aq el)) (js_mul (safe_ratio pr) (clamp0 (org el))))
              (js_add (Num 1) (js_mul (safe_ratio pr) (clamp0 (Dv el)))))))
      else None)"
  by (simp add: simulate_sx_stage_def fold_stage_orgOut stage_equilibrium_clamp)

lemma simulate_dom_aqOut: "dom (aqOut (simulate_sx_stage aq org pr Dv)) = set targetElements"
  by (auto simp: simulate_aqOut dom_def)

lemma simulate_dom_orgOut: "dom (orgOut (simulate_sx_stage aq org pr Dv)) = set targetElements"
  by (auto simp: simulate_orgOut dom_def)

lemmas simulate_eval = simulate_aqOut simulate_orgOut targetElements_def safe_ratio_def

text \<open>
  Both output maps have exactly the four tracked keys, for every input; a tracked
  species absent from all three input maps has the value 0 whenever the phase ratio is
  not \<open>+Infinity\<close>.
\<close>

lemma tracked_species_keys:
  "dom (aqOut (simulate_sx_stage aq org pr Dv)) = {''Nd'', ''Fe'', ''Th'', ''U''}
   \<and> dom (orgOut (simulate_sx_stage aq org pr Dv)) = {''Nd'', ''Fe'', ''Th'', ''U''}
   \<and> (pr \<noteq> PInf \<and> s \<in> {''Nd'', ''Fe'', ''Th'', ''U''} \<and> aq s = None \<and> org s = None \<and> Dv s = None
        \<longrightarrow> aqOut (simulate_sx_stage aq org pr Dv) s = Some (Num 0)
          \<and> orgOut (simulate_sx_stage aq org pr Dv) s = Some (Num 0))
   \<and> aqOut (simulate_sx_stage (map_of [(''Nd'', Num 5)]) (map_of []) (Num 1)
        (map_of [(''Nd'', Num 1)])) ''Th'' = Some (Num 0)"
proof -
  have t: "set targetElements = {''Nd'', ''Fe'', ''Th'', ''U''}"
    by (simp add: targetElements_def)
  have zero: "aqOut (simulate_sx_stage aq org pr Dv) s = Some (Num 0)
          \<and> orgOut (simulate_sx_stage aq org pr Dv) s = Some (Num 0)"
    if h: "pr \<noteq> PInf \<and> s \<in> {''Nd'', ''Fe'', ''Th'', ''U''} \<and> aq s = None \<and> org s = None \<and> Dv s = None"
    for aq org pr Dv s
  proof -
    from h obtain R where R: "safe_ratio pr = Num R"
      using safe_ratio_finite by blast
    from h have s: "s \<in> set targetElements" and a: "aq s = None" and b: "org s = None"
      and d: "Dv s = None" unfolding t by simp_all
    show ?thesis
      unfolding simulate_aqOut simulate_orgOut a b d R using s
      by (simp add: round_dp_zero round64_zero round64_one)
  qed
  have ex: "aqOut (simulate_sx_stage (map_of [(''Nd'', Num 5)]) (map_of []) (Num 1)
        (map_of [(''Nd'', Num 1)])) ''Th'' = Some (Num 0)"
    using zero [of "Num 1" "''Th''" "map_of [(''Nd'', Num 5)]" "map_of []" "map_of [(''Nd'', Num 1)]"]
    by simp
  show ?thesis
    using zero [of pr s aq org Dv] ex unfolding simulate_dom_aqOut simulate_dom_orgOut t by blast
qed

subsection \<open>The stage on bounded inputs\<close>

text \<open>
  With the sanitised inputs at most \<open>2\<^sup>3\<^sup>0\<^sup>0\<close> no intermediate result overflows.
\<close>

lemma stage_values_bounded:
  assumes a: "0 \<le> a" "a \<le> 2 ^ 300" and b: "0 \<le> b" "b \<le> 2 ^ 300"
    and d: "0 \<le> d" "d \<le> 2 ^ 300" and R: "0 < R" "R \<le> 2 ^ 300"
  shows "\<exists>den x y xr yr.
           js_add (Num 1) (js_mul (Num R) (Num d)) = Num den \<and> 1 \<le> den
         \<and> js_div (js_add (Num a) (js_mul (Num R) (Num b))) (Num den) = Num x \<and> 0 \<le> x
         \<and> js_mul (Num d) (Num x) = Num y \<and> 0 \<le> y
         \<and> parseFloat_toFixed 4 (Num x) = Num xr \<and> 0 \<le> xr
         \<and> parseFloat_toFixed 4 (Num y) = Num yr \<and> 0 \<le> yr"
proof -
  have Rb: "0 \<le> R * b" "R * b \<le> 2 ^ 600"
    using R b mult_mono [of R "2 ^ 300" b "2 ^ 300"] by simp_all
  obtain t1 where t1: "round64 (R * b) = Num t1" "0 \<le> t1" "t1 \<le> 2 ^ 600"
    using round64_finite_nonneg [OF Rb] by auto
  have "0 \<le> a + t1" "a + t1 \<le> 2 ^ 601" using a t1 by simp_all
  then obtain N where N: "round64 (a + t1) = Num N" "0 \<le> N" "N \<le> 2 ^ 601"
    using round64_finite_nonneg [of "a + t1" 601] by auto
  have Rd: "0 \<le> R * d" "R * d \<le> 2 ^ 600"
    using R d mult_mono [of R "2 ^ 300" d "2 ^ 300"] by simp_all
  obtain t2 where t2: "round64 (R * d) = Num t2" "0 \<le> t2" "t2 \<le> 2 ^ 600"
    using round64_finite_nonneg [OF Rd] by auto
  have "0 \<le> 1 + t2" "1 + t2 \<le> 2 ^ 601" using t2 by simp_all
  then obtain den where den: "round64 (1 + t2) = Num den"
    using round64_finite_nonneg [of "1 + t2" 601] by auto
  have den1: "1 \<le> den" using round64_ge_1 [of "1 + t2"] t2 den by simp
  have q: "0 \<le> N / den" "N / den \<le> 2 ^ 601"
  proof -
    show "0 \<le> N / den" using N den1 by simp
    have "N / den \<le> N / 1" using N den1 by (intro divide_left_mono) simp_all
    thus "N / den \<le> 2 ^ 601" using N by simp
  qed
  obtain x where x: "round64 (N / den) = Num x" "0 \<le> x" "x \<le> 2 ^ 601"
    using round64_finite_nonneg [OF q] by auto
  have dx: "0 \<le> d * x" "d * x \<le> 2 ^ 901"
    using d x mult_mono [of d "2 ^ 300" x "2 ^ 601"] by simp_all
  obtain y where y: "round64 (d * x) = Num y" "0 \<le> y" "y \<le> 2 ^ 901"
    using round64_finite_nonneg [OF dx] by auto
  have rx: "0 \<le> round_dp 4 x" "round_dp 4 x \<le> 2 ^ 602"
  proof -
    show "0 \<le> round_dp 4 x" using x by (intro round_dp_nonneg)
    have "round_dp 4 x \<le> x + 1 / 20000" using round_dp_4_error [of x] by linarith
    thus "round_dp 4 x \<le> 2 ^ 602" using x by simp
  qed
  obtain xr where xr: "round64 (round_dp 4 x) = Num xr" "0 \<le> xr"
    using round64_finite_nonneg [OF rx] by auto
  have ry: "0 \<le> round_dp 4 y" "round_dp 4 y \<le> 2 ^ 902"
  proof -
    show "0 \<le> round_dp 4 y" using y by (intro round_dp_nonneg)
    have "round_dp 4 y \<le> y + 1 / 20000" using round_dp_4_error [of y] by linarith
    thus "round_dp 4 y \<le> 2 ^ 902" using y by simp
  qed
  obtain yr where yr: "round64 (round_dp 4 y) = Num yr" "0 \<le> yr"
    using round64_finite_nonneg [OF ry] by auto
  have "den \<noteq> 0" using den1 by simp
  thus ?thesis
    using t1 N t2 den den1 x y xr yr by simp
qed

text \<open>
  With the sanitised inputs at most 256 the rounding errors of the six operations and
  of the two conversions add up to less than \<open>2\<^sup>-\<^sup>1\<^sup>6\<close>.
\<close>

lemma balance_exact:
  assumes "0 < R" "0 \<le> d"
  shows "a + R * b = Cout_aq_formula a b R d + R * (d * Cout_aq_formula a b R d)"
proof -
  have "0 \<le> R * d" using assms by simp
  hence nz: "1 + R * d \<noteq> 0" by linarith
  have "Cout_aq_formula a b R d + R * (d * Cout_aq_formula a b R d)
          = Cout_aq_formula a b R d * (1 + R * d)"
    by (simp add: algebra_simps)
  also have "\<dots> = a + R * b"
    using nz by (simp add: Cout_aq_formula_def)
  finally show ?thesis by simp
qed

lemma stage_mass_balance:
  assumes a: "0 \<le> a" "a \<le> 256" and b: "0 \<le> b" "b \<le> 256"
    and d: "0 \<le> d" "d \<le> 256" and R: "0 < R" "R \<le> 256"
  shows "\<exists>x y xr yr.
           js_div (js_add (Num a) (js_mul (Num R) (Num b)))
             (js_add (Num 1) (js_mul (Num R) (Num d))) = Num x
         \<and> js_mul (Num d) (Num x) = Num y
         \<and> parseFloat_toFixed 4 (Num x) = Num xr
         \<and> parseFloat_toFixed 4 (Num y) = Num yr
         \<and> \<bar>a + R * b - (x + R * y)\<bar> \<le> 1 / 2 ^ 17
         \<and> \<bar>a + R * b - (xr + R * yr)\<bar> \<le> (1 + R) / 20000 + 1 / 2 ^ 16"
proof -
  define M where "M = a + R * b"
  define Dx where "Dx = 1 + R * d"
  have Rb: "0 \<le> R * b" "R * b \<le> 2 ^ 16"
    using R b mult_mono [of R 256 b 256] by simp_all
  obtain t1 where t1: "round64 (R * b) = Num t1" "0 \<le> t1" "t1 \<le> 2 ^ 16"
      "\<bar>t1 - R * b\<bar> \<le> 2 ^ 16 / 2 ^ 53"
    using round64_nonneg_approx [OF Rb] by auto
  have "0 \<le> a + t1" "a + t1 \<le> 2 ^ 17" using a t1 by simp_all
  then obtain N where N: "round64 (a + t1) = Num N" "0 \<le> N" "N \<le> 2 ^ 17"
      "\<bar>N - (a + t1)\<bar> \<le> 2 ^ 17 / 2 ^ 53"
    using round64_nonneg_approx [of "a + t1" 17] by auto
  have c1: "(1::real) / 2 ^ 37 + 1 / 2 ^ 36 \<le> 1 / 2 ^ 35" by simp
  have t1e: "\<bar>t1 - R * b\<bar> \<le> 1 / 2 ^ 37" using t1(4) by simp
  have Ne: "\<bar>N - (a + t1)\<bar> \<le> 1 / 2 ^ 36" using N(4) by simp
  have NM: "\<bar>N - M\<bar> \<le> 1 / 2 ^ 35"
    unfolding M_def using t1e Ne c1 by linarith
  have Rd: "0 \<le> R * d" "R * d \<le> 2 ^ 16"
    using R d mult_mono [of R 256 d 256] by simp_all
  obtain t2 where t2: "round64 (R * d) = Num t2" "0 \<le> t2" "t2 \<le> 2 ^ 16"
      "\<bar>t2 - R * d\<bar> \<le> 2 ^ 16 / 2 ^ 53"
    using round64_nonneg_approx [OF Rd] by auto
  have "0 \<le> 1 + t2" "1 + t2 \<le> 2 ^ 17" using t2 by simp_all
  then obtain Dn where Dn: "round64 (1 + t2) = Num Dn" "Dn \<le> 2 ^ 17"
      "\<bar>Dn - (1 + t2)\<bar> \<le> 2 ^ 17 / 2 ^ 53"
    using round64_nonneg_approx [of "1 + t2" 17] by auto
  have Dn1: "1 \<le> Dn" using round64_ge_1 [of "1 + t2"] t2 Dn by simp
  have t2e: "\<bar>t2 - R * d\<bar> \<le> 1 / 2 ^ 37" using t2(4) by simp
  have Dne: "\<bar>Dn - (1 + t2)\<bar> \<le> 1 / 2 ^ 36" using Dn(3) by simp
  have DD: "\<bar>Dx - Dn\<bar> \<le> 1 / 2 ^ 35"
    unfolding Dx_def using t2e Dne c1 by linarith
  have Dx: "0 \<le> Dx" "Dx \<le> 2 ^ 17" unfolding Dx_def using Rd by simp_all
  define q where "q = N / Dn"
  have q: "0 \<le> q" "q \<le> 2 ^ 17"
  proof -
    show "0 \<le> q" unfolding q_def using N Dn1 by simp
    have "N / Dn \<le> N / 1" using N Dn1 by (intro divide_left_mono) simp_all
    thus "q \<le> 2 ^ 17" unfolding q_def using N by simp
  qed
  have qDn: "q * Dn = N" unfolding q_def using Dn1 by simp
  obtain x where x: "round64 q = Num x" "0 \<le> x" "x \<le> 2 ^ 17"
      "\<bar>x - q\<bar> \<le> 2 ^ 17 / 2 ^ 53"
    using round64_nonneg_approx [OF q] by auto
  have dx: "0 \<le> d * x" "d * x \<le> 2 ^ 25"
    using d x mult_mono [of d 256 x "2 ^ 17"] by simp_all
  obtain y where y: "round64 (d * x) = Num y" "0 \<le> y" "y \<le> 2 ^ 25"
      "\<bar>y - d * x\<bar> \<le> 2 ^ 25 / 2 ^ 53"
    using round64_nonneg_approx [OF dx] by auto
  have "\<bar>q * (Dx - Dn)\<bar> \<le> 2 ^ 17 * (1 / 2 ^ 35)"
    using q DD by (intro abs_mult_le) simp_all
  hence e1: "\<bar>q * (Dx - Dn)\<bar> \<le> 1 / 2 ^ 18" by simp
  have xe: "\<bar>x - q\<bar> \<le> 1 / 2 ^ 36" using x(4) by simp
  have "\<bar>(x - q) * Dx\<bar> \<le> (1 / 2 ^ 36) * 2 ^ 17"
    using xe Dx by (intro abs_mult_le) simp_all
  hence e2: "\<bar>(x - q) * Dx\<bar> \<le> 1 / 2 ^ 19" by simp
  have ye: "\<bar>y - d * x\<bar> \<le> 1 / 2 ^ 28" using y(4) by simp
  have "\<bar>R * (y - d * x)\<bar> \<le> 256 * (1 / 2 ^ 28)"
    using R ye by (intro abs_mult_le) simp_all
  hence e3: "\<bar>R * (y - d * x)\<bar> \<le> 1 / 2 ^ 20" by simp
  have id1: "x + R * y - M = (N - M) + q * (Dx - Dn) + (x - q) * Dx + R * (y - d * x)"
    unfolding Dx_def M_def using qDn by (simp add: algebra_simps)
  have c2: "(1::real) / 2 ^ 35 + 1 / 2 ^ 18 + 1 / 2 ^ 19 + 1 / 2 ^ 20 \<le> 1 / 2 ^ 17" by simp
  have unr: "\<bar>M - (x + R * y)\<bar> \<le> 1 / 2 ^ 17"
    using id1 NM e1 e2 e3 c2 by linarith
  have rx: "0 \<le> round_dp 4 x" "round_dp 4 x \<le> 2 ^ 18"
  proof -
    show "0 \<le> round_dp 4 x" using x by (intro round_dp_nonneg)
    have "round_dp 4 x \<le> x + 1 / 20000" using round_dp_4_error [of x] by linarith
    thus "round_dp 4 x \<le> 2 ^ 18" using x by simp
  qed
  obtain xr where xr: "round64 (round_dp 4 x) = Num xr"
      "\<bar>xr - round_dp 4 x\<bar> \<le> 2 ^ 18 / 2 ^ 53"
    using round64_nonneg_approx [OF rx] by auto
  have ry: "0 \<le> round_dp 4 y" "round_dp 4 y \<le> 2 ^ 26"
  proof -
    show "0 \<le> round_dp 4 y" using y by (intro round_dp_nonneg)
    have "round_dp 4 y \<le> y + 1 / 20000" using round_dp_4_error [of y] by linarith
    thus "round_dp 4 y \<le> 2 ^ 26" using y by simp
  qed
  obtain yr where yr: "round64 (round_dp 4 y) = Num yr"
      "\<bar>yr - round_dp 4 y\<bar> \<le> 2 ^ 26 / 2 ^ 53"
    using round64_nonneg_approx [OF ry] by auto
  have yre: "\<bar>yr - round_dp 4 y\<bar> \<le> 1 / 2 ^ 27" using yr(2) by simp
  have "\<bar>R * (yr - round_dp 4 y)\<bar> \<le> 256 * (1 / 2 ^ 27)"
    using R yre by (intro abs_mult_le) simp_all
  hence e4: "\<bar>R * (yr - round_dp 4 y)\<bar> \<le> 1 / 2 ^ 19" by simp
  have e5: "\<bar>R * (round_dp 4 y - y)\<bar> \<le> R * (1 / 20000)"
    using R round_dp_4_error [of y] by (intro abs_mult_le) simp_all
  have e6: "\<bar>xr - round_dp 4 x\<bar> \<le> 1 / 2 ^ 35"
    using xr(2) by simp
  have id2: "xr + R * yr - (x + R * y) =
      (xr - round_dp 4 x) + (round_dp 4 x - x) + R * (yr - round_dp 4 y) + R * (round_dp 4 y - y)"
    by (simp add: algebra_simps)
  have c3: "(1::real) / 2 ^ 35 + 1 / 2 ^ 19 \<le> 1 / 2 ^ 18" by simp
  have c4: "(1 + R) / 20000 = 1 / 20000 + R * (1 / 20000)" by (simp add: field_simps)
  have rnd: "\<bar>xr + R * yr - (x + R * y)\<bar> \<le> (1 + R) / 20000 + 1 / 2 ^ 18"
    using id2 e6 round_dp_4_error [of x] e4 e5 c3 c4 by linarith
  have c5: "(1::real) / 2 ^ 18 + 1 / 2 ^ 17 \<le> 1 / 2 ^ 16" by simp
  have tot: "\<bar>M - (xr + R * yr)\<bar> \<le> (1 + R) / 20000 + 1 / 2 ^ 16"
    using unr rnd c5 by linarith
  have "Dn \<noteq> 0" using Dn1 by simp
  thus ?thesis
    using t1 N t2 Dn x y xr yr unr tot unfolding M_def q_def by simp
qed

subsection \<open>The optimizer, with its sanitisation folded\<close>

lemma optimizer_unfold:
  "prescriptive_setpoint_optimizer rnd cur tgt det =
     \<lparr>new_pH_setpoint =
        parseFloat_toFixed 2 (js_add (sanitize_current cur) (setpoint_step cur tgt)),
      action =
        (if js_gt (setpoint_step cur tgt) (lit 0.01) then ''Increase Acid/Base Flow (Raise pH)''
         else if js_lt (setpoint_step cur tgt) (js_neg (lit 0.01))
           then ''Adjust Acid/Base Flow (Lower pH)''
         else ''Maintain pH''),
      predicted_efficiency =
        Math_max (Num 0) (Math_min (Num 1)
          (js_add (js_sub (lit 0.8)
             (js_mul (lit 0.2) (Math_pow (js_sub (sanitize_current cur) (sanitize_target tgt)) 2)))
             (optimizer_noise rnd (case det of None \<Rightarrow> False | Some b \<Rightarrow> b))))\<rparr>"
proof -
  have c: "(if isNaN cur then Num 0 else cur) = sanitize_current cur"
    by (cases cur) simp_all
  have t: "(let t = (case tgt of None \<Rightarrow> lit 1.8 | Some t \<Rightarrow> t)
            in if isNaN t then lit 1.8 else t) = sanitize_target tgt"
    by (cases tgt rule: sanitize_target.cases) (simp_all add: isNaN_lit)
  show ?thesis
    using t unfolding prescriptive_setpoint_optimizer_def Let_def c setpoint_step_def
    by (simp add: js_mul_commute [of _ "Num (1 / 2)"])
qed

lemma optimizer_noise_finite:
  assumes "0 \<le> rnd" "rnd < 1"
  shows "\<exists>n. optimizer_noise rnd d = Num n"
proof (cases d)
  case True
  then show ?thesis by (simp add: optimizer_noise_def)
next
  case False
  have "\<bar>rnd - 1 / 2\<bar> \<le> 2 powi 0" using assms by simp
  then obtain y where y: "round64 (rnd - 1 / 2) = Num y" "\<bar>y\<bar> \<le> 2 powi 0"
    using round64_bounded [of "rnd - 1 / 2" 0] by auto
  have "\<bar>y * (3602879701896397 / 72057594037927936)\<bar> \<le> 1 * 1"
    using y(2) by (intro abs_mult_le) simp_all
  hence "\<bar>y * (3602879701896397 / 72057594037927936)\<bar> \<le> 2 powi 0" by simp
  then obtain n where "round64 (y * (3602879701896397 / 72057594037927936)) = Num n"
    using round64_bounded [of "y * (3602879701896397 / 72057594037927936)" 0] by auto
  thus ?thesis
    using False y(1) unfolding optimizer_noise_def js_sub_def lit_0_05 by simp
qed

lemma clamp_unit_range:
  "x \<noteq> NaN \<Longrightarrow> \<exists>e. Math_max (Num 0) (Math_min (Num 1) x) = Num e \<and> 0 \<le> e \<and> e \<le> 1"
  by (cases x) (simp_all add: max_def min_def)

lemma sanitize_target_cases:
  "sanitize_target tgt \<noteq> NaN
   \<and> (sanitize_target tgt = PInf) = (tgt = Some PInf)
   \<and> (sanitize_target tgt = NInf) = (tgt = Some NInf)"
  by (cases tgt rule: sanitize_target.cases)
    (simp_all add: evaluate64 round64_value [where e = 0])

lemma sanitize_current_cases:
  "sanitize_current cur \<noteq> NaN
   \<and> (sanitize_current cur = PInf) = (cur = PInf)
   \<and> (sanitize_current cur = NInf) = (cur = NInf)"
  by (cases cur) simp_all

lemma pH_difference_NaN:
  "(js_sub (sanitize_current cur) (sanitize_target tgt) = NaN) =
     (cur = PInf \<and> tgt = Some PInf \<or> cur = NInf \<and> tgt = Some NInf)"
  using js_sub_NaN_iff [of "sanitize_current cur" "sanitize_target tgt"]
    sanitize_target_cases [of tgt] sanitize_current_cases [of cur]
  by simp

text \<open>
  Unless the current and the target pH are the same infinity, the predicted efficiency
  is a real in \<open>[0, 1]\<close>, for every draw in \<open>[0, 1)\<close>.
\<close>

lemma efficiency_in_unit_interval:
  assumes "\<not> (cur = PInf \<and> tgt = Some PInf)" "\<not> (cur = NInf \<and> tgt = Some NInf)"
    and "0 \<le> rnd" "rnd < 1"
  shows "\<exists>e. predicted_efficiency (prescriptive_setpoint_optimizer rnd cur tgt det) = Num e
           \<and> 0 \<le> e \<and> e \<le> 1"
proof -
  obtain n where n: "optimizer_noise rnd (case det of None \<Rightarrow> False | Some b \<Rightarrow> b) = Num n"
    using optimizer_noise_finite [OF assms(3,4)] by blast
  have "js_sub (sanitize_current cur) (sanitize_target tgt) \<noteq> NaN"
    using assms(1,2) by (simp add: pH_difference_NaN)
  hence "Math_pow (js_sub (sanitize_current cur) (sanitize_target tgt)) 2 \<noteq> NaN"
    by (rule Math_pow_not_NaN)
  hence "js_mul (lit 0.2) (Math_pow (js_sub (sanitize_current cur) (sanitize_target tgt)) 2) \<noteq> NaN"
    unfolding lit_0_2 by (intro js_mul_pos_not_NaN) simp_all
  hence "js_sub (lit 0.8)
      (js_mul (lit 0.2) (Math_pow (js_sub (sanitize_current cur) (sanitize_target tgt)) 2)) \<noteq> NaN"
    unfolding lit_0_8 js_sub_def [of "Num _"] by (intro js_add_Num_not_NaN js_neg_not_NaN)
  hence "js_add (js_sub (lit 0.8)
      (js_mul (lit 0.2) (Math_pow (js_sub (sanitize_current cur) (sanitize_target tgt)) 2))) (Num n)
      \<noteq> NaN"
    by (rule js_add_not_NaN_Num)
  from clamp_unit_range [OF this] show ?thesis
    unfolding optimizer_unfold n by simp
qed

subsection \<open>The compliance check, with its sanitisation folded\<close>

lemma compliance_unfold:
  "check_th_u_compliance th u lmt =
     \<lparr>total_conc_gl = parseFloat_toFixed 4 (js_add (sanitize_conc th) (sanitize_conc u)),
      is_compliant = js_lt (js_add (sanitize_conc th) (sanitize_conc u)) (sanitize_limit lmt),
      finding = (if js_lt (js_add (sanitize_conc th) (sanitize_conc u)) (sanitize_limit lmt)
                 then ''Meets NCMM Th/U safety requirements.''
                 else ''EXCEEDS Regulatory Limit. Adjust flowsheet.'')\<rparr>"
proof -
  have l: "(let limit = (case lmt of None \<Rightarrow> lit 0.1 | Some l \<Rightarrow> l)
            in if isNaN limit then lit 0.1 else limit) = sanitize_limit lmt"
    by (cases lmt rule: sanitize_limit.cases) (simp_all add: isNaN_lit)
  show ?thesis
    using l by (simp add: check_th_u_compliance_def Let_def Math_max_or0)
qed

lemma sanitized_total_not_negative:
  "\<not> js_lt (js_add (sanitize_conc th) (sanitize_conc u)) (Num 0)"
  by (intro not_negative_not_lt_0 not_negative_add not_negative_sanitize_conc)

lemma js_lt_le_trans_zero: "\<not> js_lt t (Num 0) \<Longrightarrow> js_le l (Num 0) \<Longrightarrow> \<not> js_lt t l"
  by (cases t; cases l) simp_all

section \<open>Equilibrium stage engine: the claims\<close>

text \<open>
  Claim C1. For every tracked species \<open>s\<close>, the aqueous output is
  \<open>(Cin_aq + R_safe * Cin_org) / (1 + R_safe * D_s)\<close> rounded to 4 decimals and the
  organic output is \<open>D_s\<close> times the unrounded quotient, rounded to 4 decimals, all in
  the binary64 arithmetic of the code. The three inputs are the entries of \<open>s\<close> with
  a missing, NaN or negative value taken as 0; \<open>R_safe\<close> is the larger of 0.0001 and
  the phase ratio, a NaN phase ratio counting as 1. Rounding to 4 decimals yields the
  binary64 value of a multiple of \<open>10\<^sup>-\<^sup>4\<close> within 0.00005 of its argument.
  Feed 10 with ratio 1 gives 5 and 5 at coefficient 1, and 1 and 9 at coefficient 9.
  Feed 0.005 with ratio 1 and coefficient 3 gives 0.0013 and 0.0037: the organic output
  comes from the unrounded 0.00125, not from 0.0013, which would give 0.0039.
\<close>

theorem stage_formula:
  "(s \<in> set targetElements \<longrightarrow>
      aqOut (simulate_sx_stage aq org pr Dv) s =
        Some (parseFloat_toFixed 4
          (js_div (js_add (clamp0 (aq s)) (js_mul (safe_ratio pr) (clamp0 (org s))))
             (js_add (Num 1) (js_mul (safe_ratio pr) (clamp0 (Dv s))))))
      \<and> orgOut (simulate_sx_stage aq org pr Dv) s =
        Some (parseFloat_toFixed 4
          (js_mul (clamp0 (Dv s))
             (js_div (js_add (clamp0 (aq s)) (js_mul (safe_ratio pr) (clamp0 (org s))))
                (js_add (Num 1) (js_mul (safe_ratio pr) (clamp0 (Dv s))))))))
   \<and> parseFloat_toFixed 4 (Num x) = round64 (round_dp 4 x)
   \<and> (\<exists>k::int. round_dp 4 x = of_int k / 10 ^ 4)
   \<and> \<bar>round_dp 4 x - x\<bar> \<le> 1 / 20000
   \<and> safe_ratio NaN = Num 1
   \<and> safe_ratio (Num p) = (if js_lt (Num p) (lit 0.0001) then lit 0.0001 else Num p)
   \<and> aqOut (simulate_sx_stage (map_of [(''Nd'', Num 10)]) (map_of []) (Num 1)
        (map_of [(''Nd'', Num 1)])) ''Nd'' = Some (Num 5)
   \<and> orgOut (simulate_sx_stage (map_of [(''Nd'', Num 10)]) (map_of []) (Num 1)
        (map_of [(''Nd'', Num 1)])) ''Nd'' = Some (Num 5)
   \<and> aqOut (simulate_sx_stage (map_of [(''Nd'', Num 10)]) (map_of []) (Num 1)
        (map_of [(''Nd'', Num 9)])) ''Nd'' = Some (Num 1)
   \<and> orgOut (simulate_sx_stage (map_of [(''Nd'', Num 10)]) (map_of []) (Num 1)
        (map_of [(''Nd'', Num 9)])) ''Nd'' = Some (Num 9)
   \<and> aqOut (simulate_sx_stage (map_of [(''Nd'', lit 0.005)]) (map_of []) (Num 1)
        (map_of [(''Nd'', Num 3)])) ''Nd'' = Some (lit 0.0013)
   \<and> orgOut (simulate_sx_stage (map_of [(''Nd'', lit 0.005)]) (map_of []) (Num 1)
        (map_of [(''Nd'', Num 3)])) ''Nd'' = Some (lit 0.0037)
   \<and> parseFloat_toFixed 4 (js_mul (Num 3) (lit 0.0013)) = lit 0.0039"
proof -
  have t1: "aqOut (simulate_sx_stage (map_of [(''Nd'', Num 10)]) (map_of []) (Num 1)
        (map_of [(''Nd'', Num 1)])) ''Nd'' = Some (Num 5)"
    by (simp add: simulate_eval evaluate64 round64_value [where e = "- 14"] round64_value [where e = "0"] round64_value [where e = "1"] round64_value [where e = "2"] round64_value [where e = "3"])
  have t2: "orgOut (simulate_sx_stage (map_of [(''Nd'', Num 10)]) (map_of []) (Num 1)
        (map_of [(''Nd'', Num 1)])) ''Nd'' = Some (Num 5)"
    by (simp add: simulate_eval evaluate64 round64_value [where e = "- 14"] round64_value [where e = "0"] round64_value [where e = "1"] round64_value [where e = "2"] round64_value [where e = "3"])
  have t3: "aqOut (simulate_sx_stage (map_of [(''Nd'', Num 10)]) (map_of []) (Num 1)
        (map_of [(''Nd'', Num 9)])) ''Nd'' = Some (Num 1)"
    by (simp add: simulate_eval evaluate64 round64_value [where e = "- 14"] round64_value [where e = "0"] round64_value [where e = "3"])
  have t4: "orgOut (simulate_sx_stage (map_of [(''Nd'', Num 10)]) (map_of []) (Num 1)
        (map_of [(''Nd'', Num 9)])) ''Nd'' = Some (Num 9)"
    by (simp add: simulate_eval evaluate64 round64_value [where e = "- 14"] round64_value [where e = "0"] round64_value [where e = "3"])
  have t5: "aqOut (simulate_sx_stage (map_of [(''Nd'', lit 0.005)]) (map_of []) (Num 1)
        (map_of [(''Nd'', Num 3)])) ''Nd'' = Some (lit 0.0013)"
    by (simp add: simulate_eval evaluate64 round64_value [where e = "- 14"] round64_value [where e = "- 10"] round64_value [where e = "- 9"] round64_value [where e = "- 8"] round64_value [where e = "1"] round64_value [where e = "2"])
  have t6: "orgOut (simulate_sx_stage (map_of [(''Nd'', lit 0.005)]) (map_of []) (Num 1)
        (map_of [(''Nd'', Num 3)])) ''Nd'' = Some (lit 0.0037)"
    by (simp add: simulate_eval evaluate64 round64_value [where e = "- 14"] round64_value [where e = "- 10"] round64_value [where e = "- 9"] round64_value [where e = "- 8"] round64_value [where e = "1"] round64_value [where e = "2"])
  have t7: "parseFloat_toFixed 4 (js_mul (Num 3) (lit 0.0013)) = lit 0.0039"
    by (simp add: evaluate64 round64_value [where e = "- 10"] round64_value [where e = "- 9"])
  have g: "\<exists>k::int. round_dp 4 x = of_int k / 10 ^ 4" by (rule round_dp_grid)
  have e: "\<bar>round_dp 4 x - x\<bar> \<le> 1 / 20000" using round_dp_error [of 4 x] by simp
  show ?thesis
    using t1 t2 t3 t4 t5 t6 t7 g e safe_ratio_NaN safe_ratio_real [of p]
    by (simp add: simulate_aqOut simulate_orgOut)
qed

theorem stage_formula_witness:
  "''Nd'' \<in> set targetElements
   \<and> aqOut (simulate_sx_stage (map_of [(''Nd'', Num 10)]) (map_of []) (Num 1)
        (map_of [(''Nd'', Num 9)])) ''Nd'' =
        Some (parseFloat_toFixed 4
          (js_div (js_add (Num 10) (js_mul (Num 1) (Num 0))) (js_add (Num 1) (js_mul (Num 1) (Num 9)))))
   \<and> orgOut (simulate_sx_stage (map_of [(''Nd'', Num 10)]) (map_of []) (Num 1)
        (map_of [(''Nd'', Num 9)])) ''Nd'' =
        Some (parseFloat_toFixed 4
          (js_mul (Num 9)
             (js_div (js_add (Num 10) (js_mul (Num 1) (Num 0)))
                (js_add (Num 1) (js_mul (Num 1) (Num 9))))))"
  using stage_formula [where s = "''Nd''" and aq = "map_of [(''Nd'', Num 10)]"
      and org = "map_of []" and pr = "Num 1" and Dv = "map_of [(''Nd'', Num 9)]"]
  unfolding safe_ratio_def lit_0_0001 by (simp add: targetElements_def)

text \<open>
  Claim C2, as amended. In real arithmetic the formula conserves mass exactly:
  \<open>a + R * b = x + R * (d * x)\<close> for \<open>x = (a + R * b) / (1 + R * d)\<close>. In the code,
  when the sanitised concentrations, coefficient and ratio are at most 256, the
  unrounded outputs conserve mass up to \<open>2\<^sup>-\<^sup>1\<^sup>7\<close> and the returned, rounded outputs up
  to \<open>(1 + R) * 0.00005 + 2\<^sup>-\<^sup>1\<^sup>6\<close>, which is less than 0.1. For feed 100, ratio 2 and
  coefficient 2.5 the outputs are 16.6667 and 41.6667, the mass out that test 1.3 of
  the source computes from them is 100.0001, and its distance from 100 is below 0.1.
\<close>

theorem mass_balance:
  "(0 < R \<and> 0 \<le> d \<longrightarrow>
      a + R * b = Cout_aq_formula a b R d + R * (d * Cout_aq_formula a b R d))
   \<and> (clamp0 (aq s) = Num a \<and> a \<le> 256 \<and> clamp0 (org s) = Num b \<and> b \<le> 256
        \<and> clamp0 (Dv s) = Num d \<and> d \<le> 256 \<and> safe_ratio pr = Num R \<and> R \<le> 256 \<longrightarrow>
      (\<exists>x y. stage_equilibrium aq org (safe_ratio pr) Dv s = (Num x, Num y)
           \<and> \<bar>a + R * b - (x + R * y)\<bar> \<le> 1 / 2 ^ 17))
   \<and> (s \<in> set targetElements
        \<and> clamp0 (aq s) = Num a \<and> a \<le> 256 \<and> clamp0 (org s) = Num b \<and> b \<le> 256
        \<and> clamp0 (Dv s) = Num d \<and> d \<le> 256 \<and> safe_ratio pr = Num R \<and> R \<le> 256 \<longrightarrow>
      (\<exists>xr yr. aqOut (simulate_sx_stage aq org pr Dv) s = Some (Num xr)
           \<and> orgOut (simulate_sx_stage aq org pr Dv) s = Some (Num yr)
           \<and> \<bar>a + R * b - (xr + R * yr)\<bar> \<le> (1 + R) / 20000 + 1 / 2 ^ 16
           \<and> \<bar>a + R * b - (xr + R * yr)\<bar> < 0.1))
   \<and> aqOut (simulate_sx_stage (map_of [(''Nd'', Num 100)]) (map_of []) (Num 2)
        (map_of [(''Nd'', Num 2.5)])) ''Nd'' = Some (lit 16.6667)
   \<and> orgOut (simulate_sx_stage (map_of [(''Nd'', Num 100)]) (map_of []) (Num 2)
        (map_of [(''Nd'', Num 2.5)])) ''Nd'' = Some (lit 41.6667)
   \<and> js_add (lit 16.6667) (js_mul (Num 2) (lit 41.6667)) = lit 100.0001
   \<and> js_lt (js_sub (lit 100.0001) (Num 100)) (lit 0.1)
   \<and> js_lt (js_neg (lit 0.1)) (js_sub (lit 100.0001) (Num 100))"
proof -
  have exact: "a + R * b = Cout_aq_formula a b R d + R * (d * Cout_aq_formula a b R d)"
    if "0 < R \<and> 0 \<le> d"
    using that balance_exact by blast
  have unrounded: "\<exists>x y. stage_equilibrium aq org (safe_ratio pr) Dv s = (Num x, Num y)
           \<and> \<bar>a + R * b - (x + R * y)\<bar> \<le> 1 / 2 ^ 17"
    if h: "clamp0 (aq s) = Num a \<and> a \<le> 256 \<and> clamp0 (org s) = Num b \<and> b \<le> 256
        \<and> clamp0 (Dv s) = Num d \<and> d \<le> 256 \<and> safe_ratio pr = Num R \<and> R \<le> 256"
  proof -
    from h have a: "clamp0 (aq s) = Num a" "a \<le> 256" and b: "clamp0 (org s) = Num b" "b \<le> 256"
      and d: "clamp0 (Dv s) = Num d" "d \<le> 256" and R: "safe_ratio pr = Num R" "R \<le> 256"
      by simp_all
    have a0: "0 \<le> a" using a(1) by (rule clamp0_nonneg)
    have b0: "0 \<le> b" using b(1) by (rule clamp0_nonneg)
    have d0: "0 \<le> d" using d(1) by (rule clamp0_nonneg)
    have R0: "0 < R" using R(1) by (rule safe_ratio_pos)
    obtain x y where
      "js_div (js_add (Num a) (js_mul (Num R) (Num b)))
         (js_add (Num 1) (js_mul (Num R) (Num d))) = Num x"
      "js_mul (Num d) (Num x) = Num y"
      "\<bar>a + R * b - (x + R * y)\<bar> \<le> 1 / 2 ^ 17"
      using stage_mass_balance [OF a0 a(2) b0 b(2) d0 d(2) R0 R(2)] by blast
    thus ?thesis
      unfolding stage_equilibrium_clamp a(1) b(1) d(1) R(1) by simp
  qed
  have rounded: "\<exists>xr yr. aqOut (simulate_sx_stage aq org pr Dv) s = Some (Num xr)
           \<and> orgOut (simulate_sx_stage aq org pr Dv) s = Some (Num yr)
           \<and> \<bar>a + R * b - (xr + R * yr)\<bar> \<le> (1 + R) / 20000 + 1 / 2 ^ 16
           \<and> \<bar>a + R * b - (xr + R * yr)\<bar> < 0.1"
    if h: "s \<in> set targetElements
        \<and> clamp0 (aq s) = Num a \<and> a \<le> 256 \<and> clamp0 (org s) = Num b \<and> b \<le> 256
        \<and> clamp0 (Dv s) = Num d \<and> d \<le> 256 \<and> safe_ratio pr = Num R \<and> R \<le> 256"
  proof -
    from h have s: "s \<in> set targetElements"
      and a: "clamp0 (aq s) = Num a" "a \<le> 256" and b: "clamp0 (org s) = Num b" "b \<le> 256"
      and d: "clamp0 (Dv s) = Num d" "d \<le> 256" and R: "safe_ratio pr = Num R" "R \<le> 256"
      by simp_all
    have a0: "0 \<le> a" using a(1) by (rule clamp0_nonneg)
    have b0: "0 \<le> b" using b(1) by (rule clamp0_nonneg)
    have d0: "0 \<le> d" using d(1) by (rule clamp0_nonneg)
    have R0: "0 < R" using R(1) by (rule safe_ratio_pos)
    obtain x y xr yr where v:
      "js_div (js_add (Num a) (js_mul (Num R) (Num b)))
         (js_add (Num 1) (js_mul (Num R) (Num d))) = Num x"
      "js_mul (Num d) (Num x) = Num y"
      "parseFloat_toFixed 4 (Num x) = Num xr"
      "parseFloat_toFixed 4 (Num y) = Num yr"
      "\<bar>a + R * b - (xr + R * yr)\<bar> \<le> (1 + R) / 20000 + 1 / 2 ^ 16"
      using stage_mass_balance [OF a0 a(2) b0 b(2) d0 d(2) R0 R(2)] by blast
    have "(1 + R) / 20000 \<le> 257 / 20000" using R(2) by simp
    moreover have "(257::real) / 20000 + 1 / 2 ^ 16 < 1 / 10" by simp
    ultimately have lt: "\<bar>a + R * b - (xr + R * yr)\<bar> < 0.1" using v(5) by linarith
    have "aqOut (simulate_sx_stage aq org pr Dv) s = Some (Num xr)"
      "orgOut (simulate_sx_stage aq org pr Dv) s = Some (Num yr)"
      unfolding simulate_aqOut simulate_orgOut a(1) b(1) d(1) R(1) v(1) v(2) v(3) v(4)
      using s by simp_all
    thus ?thesis using v(5) lt by blast
  qed
  have i1: "aqOut (simulate_sx_stage (map_of [(''Nd'', Num 100)]) (map_of []) (Num 2)
        (map_of [(''Nd'', Num 2.5)])) ''Nd'' = Some (lit 16.6667)"
    by (simp add: simulate_eval evaluate64 round64_value [where e = "- 14"] round64_value [where e = "- 4"] round64_value [where e = "1"] round64_value [where e = "2"] round64_value [where e = "4"] round64_value [where e = "5"] round64_value [where e = "6"])
  have i2: "orgOut (simulate_sx_stage (map_of [(''Nd'', Num 100)]) (map_of []) (Num 2)
        (map_of [(''Nd'', Num 2.5)])) ''Nd'' = Some (lit 41.6667)"
    by (simp add: simulate_eval evaluate64 round64_value [where e = "- 14"] round64_value [where e = "- 4"] round64_value [where e = "1"] round64_value [where e = "2"] round64_value [where e = "4"] round64_value [where e = "5"] round64_value [where e = "6"])
  have i3: "js_add (lit 16.6667) (js_mul (Num 2) (lit 41.6667)) = lit 100.0001"
    by (simp add: evaluate64 round64_value [where e = "- 14"] round64_value [where e = "- 4"] round64_value [where e = "1"] round64_value [where e = "2"] round64_value [where e = "4"] round64_value [where e = "5"] round64_value [where e = "6"])
  have i4: "js_lt (js_sub (lit 100.0001) (Num 100)) (lit 0.1)"
    by (simp add: js_sub_def evaluate64 round64_value [where e = "- 14"] round64_value [where e = "- 4"] round64_value [where e = "1"] round64_value [where e = "2"] round64_value [where e = "4"] round64_value [where e = "5"] round64_value [where e = "6"])
  have i5: "js_lt (js_neg (lit 0.1)) (js_sub (lit 100.0001) (Num 100))"
    by (simp add: js_sub_def evaluate64 round64_value [where e = "- 14"] round64_value [where e = "- 4"] round64_value [where e = "1"] round64_value [where e = "2"] round64_value [where e = "4"] round64_value [where e = "5"] round64_value [where e = "6"])
  show ?thesis using exact unrounded rounded i1 i2 i3 i4 i5 by blast
qed

theorem mass_balance_witness:
  "(0::real) < 2 \<and> (0::real) \<le> 5 / 2
   \<and> ''Nd'' \<in> set targetElements
   \<and> clamp0 (map_of [(''Nd'', Num 100)] ''Nd'') = Num 100 \<and> (100::real) \<le> 256
   \<and> clamp0 ((map_of [] :: Concentrations) ''Nd'') = Num 0 \<and> (0::real) \<le> 256
   \<and> clamp0 (map_of [(''Nd'', Num 2.5)] ''Nd'') = Num (5 / 2) \<and> (5 / 2 :: real) \<le> 256
   \<and> safe_ratio (Num 2) = Num 2 \<and> (2::real) \<le> 256
   \<and> 100 + 2 * 0 = Cout_aq_formula 100 0 2 (5 / 2) + 2 * (5 / 2 * Cout_aq_formula 100 0 2 (5 / 2))
   \<and> (\<exists>x y. stage_equilibrium (map_of [(''Nd'', Num 100)]) (map_of []) (safe_ratio (Num 2))
                (map_of [(''Nd'', Num 2.5)]) ''Nd'' = (Num x, Num y)
           \<and> \<bar>100 + 2 * 0 - (x + 2 * y)\<bar> \<le> 1 / 2 ^ 17)
   \<and> (\<exists>xr yr. aqOut (simulate_sx_stage (map_of [(''Nd'', Num 100)]) (map_of []) (Num 2)
                (map_of [(''Nd'', Num 2.5)])) ''Nd'' = Some (Num xr)
           \<and> orgOut (simulate_sx_stage (map_of [(''Nd'', Num 100)]) (map_of []) (Num 2)
                (map_of [(''Nd'', Num 2.5)])) ''Nd'' = Some (Num yr)
           \<and> \<bar>100 + 2 * 0 - (xr + 2 * yr)\<bar> \<le> (1 + 2) / 20000 + 1 / 2 ^ 16
           \<and> \<bar>100 + 2 * 0 - (xr + 2 * yr)\<bar> < 0.1)"
proof -
  have h: "''Nd'' \<in> set targetElements
     \<and> clamp0 (map_of [(''Nd'', Num 100)] ''Nd'') = Num 100
     \<and> clamp0 ((map_of [] :: Concentrations) ''Nd'') = Num 0
     \<and> clamp0 (map_of [(''Nd'', Num 2.5)] ''Nd'') = Num (5 / 2)
     \<and> safe_ratio (Num 2) = Num 2"
    unfolding safe_ratio_def lit_0_0001 by (simp add: targetElements_def)
  have n: "(0::real) < 2" "(0::real) \<le> 5 / 2" "(100::real) \<le> 256" "(0::real) \<le> 256"
    "(5 / 2 :: real) \<le> 256" "(2::real) \<le> 256"
    by simp_all
  show ?thesis
    using h n mass_balance [where s = "''Nd''" and aq = "map_of [(''Nd'', Num 100)]"
        and org = "map_of []" and pr = "Num 2" and Dv = "map_of [(''Nd'', Num 2.5)]"
        and a = 100 and b = 0 and d = "5 / 2" and R = 2]
    by blast
qed

text \<open>
  Claim C2 as stated, with a rounding-error bound for all non-negative inputs, fails
  when an intermediate product overflows: with feed 5, ratio 10 and coefficient
  \<open>10\<^sup>3\<^sup>0\<^sup>8\<close> the denominator is \<open>+Infinity\<close> and both outputs are 0, so a mass of 5
  goes in and nothing comes out.
\<close>

theorem mass_lost_by_overflow:
  "aqOut (simulate_sx_stage (map_of [(''Nd'', Num 5)]) (map_of []) (Num 10)
     (map_of [(''Nd'', lit (10 ^ 308))])) ''Nd'' = Some (Num 0)
   \<and> orgOut (simulate_sx_stage (map_of [(''Nd'', Num 5)]) (map_of []) (Num 10)
     (map_of [(''Nd'', lit (10 ^ 308))])) ''Nd'' = Some (Num 0)"
proof -
  have big: "round64 1000000000000000010979063629440455417404923096773118463368106829031575854049114915371633289784946888990612496697211725156115902837431400883283070091981460460312716645029330271856974896995885590433383844661650011784268976262129451776280911957867074581227839701717844151052918028932078732729748857154302231183360 = PInf"
    by (rule round64_overflow) simp
  show ?thesis
    unfolding simulate_aqOut simulate_orgOut safe_ratio_def lit_0_0001 lit_1e308
    by (simp add: targetElements_def round64_zero round_dp_zero big
        round64_value [where e = 2])
qed

text \<open>
  Claim C4. Both output maps have a key for each of Nd, Fe, Th and U, with value 0 for
  a species absent from all inputs, for every phase ratio. The code fails this at the
  phase ratio \<open>+Infinity\<close>, which its sanitiser lets through: the denominator
  \<open>1 + Infinity * 0\<close> is NaN, and the absent species Th, like every other species,
  gets NaN in both maps.
\<close>

theorem absent_species_infinite_ratio:
  "aqOut (simulate_sx_stage (map_of [(''Nd'', Num 5)]) (map_of []) PInf (map_of [(''Nd'', Num 1)]))
     ''Th'' = Some NaN
   \<and> orgOut (simulate_sx_stage (map_of [(''Nd'', Num 5)]) (map_of []) PInf (map_of [(''Nd'', Num 1)]))
     ''Th'' = Some NaN
   \<and> aqOut (simulate_sx_stage (map_of [(''Nd'', Num 5)]) (map_of []) PInf (map_of [(''Nd'', Num 1)]))
     ''Nd'' = Some NaN
   \<and> js_add (Num 1) (js_mul (safe_ratio PInf) (Math_max (Num 0)
        (lookup_or0 (map_of [(''Nd'', Num 1)]) ''Th''))) = NaN"
  by (simp add: simulate_aqOut simulate_orgOut targetElements_def safe_ratio_PInf signed_inf_def
      lookup_or0_def)

text \<open>
  Claim C8, as amended. When the sanitised entries of a species and the effective
  ratio are at most \<open>2\<^sup>3\<^sup>0\<^sup>0\<close> (negative, NaN, \<open>-Infinity\<close> and missing values
  included, since they are sanitised to 0 or to the floor of the ratio), every value
  that either output map holds for the species is finite and at least 0, and the
  denominator is finite and at least 1. For all inputs whatsoever an output value is
  NaN, \<open>+Infinity\<close>, or finite and at least 0. A feed of -10 gives the aqueous output
  0. With feeds of \<open>10\<^sup>3\<^sup>0\<^sup>8\<close> in both phases and ratio 10 the sum overflows: the
  aqueous output is \<open>+Infinity\<close> and the organic output is NaN.
\<close>

theorem outputs_finite_nonnegative:
  "(at_most (2 ^ 300) (clamp0 (aq s)) \<and> at_most (2 ^ 300) (clamp0 (org s))
      \<and> at_most (2 ^ 300) (clamp0 (Dv s)) \<and> at_most (2 ^ 300) (safe_ratio pr)
      \<and> (aqOut (simulate_sx_stage aq org pr Dv) s = Some v
          \<or> orgOut (simulate_sx_stage aq org pr Dv) s = Some v)
      \<longrightarrow> (\<exists>x. v = Num x \<and> 0 \<le> x))
   \<and> (at_most (2 ^ 300) (clamp0 (Dv s)) \<and> at_most (2 ^ 300) (safe_ratio pr)
      \<longrightarrow> (\<exists>den. js_add (Num 1) (js_mul (safe_ratio pr) (Math_max (Num 0) (lookup_or0 Dv s)))
                   = Num den \<and> 1 \<le> den))
   \<and> (aqOut (simulate_sx_stage aq org pr Dv) s = Some v
        \<or> orgOut (simulate_sx_stage aq org pr Dv) s = Some v
      \<longrightarrow> v = NaN \<or> v = PInf \<or> (\<exists>x. v = Num x \<and> 0 \<le> x))
   \<and> aqOut (simulate_sx_stage (map_of [(''Nd'', Num (- 10))]) (map_of []) (Num 1)
        (map_of [(''Nd'', Num 1)])) ''Nd'' = Some (Num 0)
   \<and> aqOut (simulate_sx_stage (map_of [(''Nd'', lit (10 ^ 308))]) (map_of [(''Nd'', lit (10 ^ 308))])
        (Num 10) (map_of [])) ''Nd'' = Some PInf
   \<and> orgOut (simulate_sx_stage (map_of [(''Nd'', lit (10 ^ 308))]) (map_of [(''Nd'', lit (10 ^ 308))])
        (Num 10) (map_of [])) ''Nd'' = Some NaN"
proof -
  have finite: "\<exists>x. v = Num x \<and> 0 \<le> x"
    if h: "at_most (2 ^ 300) (clamp0 (aq s)) \<and> at_most (2 ^ 300) (clamp0 (org s))
      \<and> at_most (2 ^ 300) (clamp0 (Dv s)) \<and> at_most (2 ^ 300) (safe_ratio pr)
      \<and> (aqOut (simulate_sx_stage aq org pr Dv) s = Some v
          \<or> orgOut (simulate_sx_stage aq org pr Dv) s = Some v)"
  proof -
    from h obtain a where a: "clamp0 (aq s) = Num a" "a \<le> 2 ^ 300" using at_most_Num by blast
    from h obtain b where b: "clamp0 (org s) = Num b" "b \<le> 2 ^ 300" using at_most_Num by blast
    from h obtain d where d: "clamp0 (Dv s) = Num d" "d \<le> 2 ^ 300" using at_most_Num by blast
    from h obtain R where R: "safe_ratio pr = Num R" "R \<le> 2 ^ 300" using at_most_Num by blast
    have a0: "0 \<le> a" using a(1) by (rule clamp0_nonneg)
    have b0: "0 \<le> b" using b(1) by (rule clamp0_nonneg)
    have d0: "0 \<le> d" using d(1) by (rule clamp0_nonneg)
    have R0: "0 < R" using R(1) by (rule safe_ratio_pos)
    obtain den x y xr yr where v:
      "js_add (Num 1) (js_mul (Num R) (Num d)) = Num den"
      "js_div (js_add (Num a) (js_mul (Num R) (Num b))) (Num den) = Num x"
      "js_mul (Num d) (Num x) = Num y"
      "parseFloat_toFixed 4 (Num x) = Num xr" "0 \<le> xr"
      "parseFloat_toFixed 4 (Num y) = Num yr" "0 \<le> yr"
      using stage_values_bounded [OF a0 a(2) b0 b(2) d0 d(2) R0 R(2)] by blast
    from h have out: "aqOut (simulate_sx_stage aq org pr Dv) s = Some v
          \<or> orgOut (simulate_sx_stage aq org pr Dv) s = Some v" by simp
    hence "v = Num xr \<or> v = Num yr"
      unfolding simulate_aqOut simulate_orgOut a(1) b(1) d(1) R(1) v(1) v(2) v(3) v(4) v(6)
      by (auto split: if_splits)
    thus ?thesis using v(5) v(7) by blast
  qed
  have den: "\<exists>den. js_add (Num 1) (js_mul (safe_ratio pr) (Math_max (Num 0) (lookup_or0 Dv s)))
                   = Num den \<and> 1 \<le> den"
    if h: "at_most (2 ^ 300) (clamp0 (Dv s)) \<and> at_most (2 ^ 300) (safe_ratio pr)"
  proof -
    from h obtain d where d: "clamp0 (Dv s) = Num d" "d \<le> 2 ^ 300" using at_most_Num by blast
    from h obtain R where R: "safe_ratio pr = Num R" "R \<le> 2 ^ 300" using at_most_Num by blast
    have d0: "0 \<le> d" using d(1) by (rule clamp0_nonneg)
    have R0: "0 < R" using R(1) by (rule safe_ratio_pos)
    obtain den where "js_add (Num 1) (js_mul (Num R) (Num d)) = Num den" "1 \<le> den"
      using stage_values_bounded [of 0 0 d R] d0 d(2) R0 R(2) by auto
    thus ?thesis unfolding Math_max_lookup d(1) R(1) by blast
  qed
  have nn: "v = NaN \<or> v = PInf \<or> (\<exists>x. v = Num x \<and> 0 \<le> x)"
    if h: "aqOut (simulate_sx_stage aq org pr Dv) s = Some v
        \<or> orgOut (simulate_sx_stage aq org pr Dv) s = Some v"
  proof -
    have x: "not_negative (js_div (js_add (clamp0 (aq s)) (js_mul (safe_ratio pr) (clamp0 (org s))))
       (js_add (Num 1) (js_mul (safe_ratio pr) (clamp0 (Dv s)))))"
      by (rule not_negative_Cout_aq)
    have y: "not_negative (js_mul (clamp0 (Dv s))
       (js_div (js_add (clamp0 (aq s)) (js_mul (safe_ratio pr) (clamp0 (org s))))
          (js_add (Num 1) (js_mul (safe_ratio pr) (clamp0 (Dv s))))))"
      using not_negative_clamp0 x by (rule not_negative_mul)
    have "not_negative v"
      using h not_negative_toFixed [OF x, of 4] not_negative_toFixed [OF y, of 4]
      unfolding simulate_aqOut simulate_orgOut
      by (auto split: if_splits)
    thus ?thesis by (simp add: not_negative_cases)
  qed
  have ex: "aqOut (simulate_sx_stage (map_of [(''Nd'', Num (- 10))]) (map_of []) (Num 1)
        (map_of [(''Nd'', Num 1)])) ''Nd'' = Some (Num 0)"
    unfolding simulate_aqOut safe_ratio_def lit_0_0001
    by (simp add: targetElements_def evaluate64 round64_value [where e = 0]
        round64_value [where e = 1])
  have big: "round64 1000000000000000010979063629440455417404923096773118463368106829031575854049114915371633289784946888990612496697211725156115902837431400883283070091981460460312716645029330271856974896995885590433383844661650011784268976262129451776280911957867074581227839701717844151052918028932078732729748857154302231183360 = PInf"
    by (rule round64_overflow) simp
  have o1: "aqOut (simulate_sx_stage (map_of [(''Nd'', lit (10 ^ 308))]) (map_of [(''Nd'', lit (10 ^ 308))])
        (Num 10) (map_of [])) ''Nd'' = Some PInf"
    unfolding simulate_aqOut safe_ratio_def lit_0_0001 lit_1e308
    by (simp add: targetElements_def signed_inf_def round64_zero round64_one big)
  have o2: "orgOut (simulate_sx_stage (map_of [(''Nd'', lit (10 ^ 308))]) (map_of [(''Nd'', lit (10 ^ 308))])
        (Num 10) (map_of [])) ''Nd'' = Some NaN"
    unfolding simulate_orgOut safe_ratio_def lit_0_0001 lit_1e308
    by (simp add: targetElements_def signed_inf_def round64_zero round64_one big)
  show ?thesis using finite den nn ex o1 o2 by blast
qed

theorem outputs_finite_nonnegative_witness:
  "at_most (2 ^ 300) (clamp0 (map_of [(''Nd'', Num (- 10))] ''Nd''))
   \<and> at_most (2 ^ 300) (clamp0 ((map_of [] :: Concentrations) ''Nd''))
   \<and> at_most (2 ^ 300) (clamp0 (map_of [(''Nd'', Num 1)] ''Nd''))
   \<and> at_most (2 ^ 300) (safe_ratio (Num 1))
   \<and> aqOut (simulate_sx_stage (map_of [(''Nd'', Num (- 10))]) (map_of []) (Num 1)
        (map_of [(''Nd'', Num 1)])) ''Nd'' = Some (Num 0)
   \<and> (\<exists>x. Num 0 = Num x \<and> 0 \<le> x)
   \<and> (\<exists>den. js_add (Num 1) (js_mul (safe_ratio (Num 1))
          (Math_max (Num 0) (lookup_or0 (map_of [(''Nd'', Num 1)]) ''Nd''))) = Num den \<and> 1 \<le> den)"
proof -
  have h: "at_most (2 ^ 300) (clamp0 (map_of [(''Nd'', Num (- 10))] ''Nd''))
   \<and> at_most (2 ^ 300) (clamp0 ((map_of [] :: Concentrations) ''Nd''))
   \<and> at_most (2 ^ 300) (clamp0 (map_of [(''Nd'', Num 1)] ''Nd''))
   \<and> at_most (2 ^ 300) (safe_ratio (Num 1))"
    unfolding safe_ratio_def lit_0_0001 by (simp add: at_most_def)
  show ?thesis
    using h outputs_finite_nonnegative [where s = "''Nd''" and aq = "map_of [(''Nd'', Num (- 10))]"
      and org = "map_of []" and pr = "Num 1" and Dv = "map_of [(''Nd'', Num 1)]" and v = "Num 0"]
    by simp
qed

text \<open>
  Claim C8 as stated, for every input, fails at a feed of \<open>+Infinity\<close>: the clamp
  keeps it, and the aqueous output is \<open>+Infinity\<close>, which is not finite.
\<close>

theorem infinite_feed_counterexample:
  "aqOut (simulate_sx_stage (map_of [(''Nd'', PInf)]) (map_of []) (Num 1) (map_of [(''Nd'', Num 1)]))
     ''Nd'' = Some PInf"
  unfolding simulate_aqOut safe_ratio_def lit_0_0001
  by (simp add: targetElements_def signed_inf_def evaluate64 round64_value [where e = 0]
      round64_value [where e = 1])

section \<open>Setpoint optimizer: the claims\<close>

text \<open>
  Claim C5. The new setpoint is \<open>currentPH + 0.5 * (targetPH - currentPH)\<close>, computed
  in binary64 on the sanitised values (NaN current pH as 0, NaN or omitted target pH
  as 1.8), then rounded to 2 decimals: the binary64 value of a multiple of 0.01 within
  0.005 of the sum. It does not depend on the random draw nor on the deterministic
  flag. From 1.0 towards 2.0, and from 2.0 towards 1.0, the setpoint is 1.5; from 0.001
  towards 0.029 the binary64 sum lies just below 0.015 and the setpoint is 0.01.
\<close>

theorem setpoint_halfway:
  "new_pH_setpoint (prescriptive_setpoint_optimizer rnd cur tgt det) =
     parseFloat_toFixed 2 (js_add (sanitize_current cur)
       (js_mul (Num 0.5) (js_sub (sanitize_target tgt) (sanitize_current cur))))
   \<and> (js_add (sanitize_current cur)
         (js_mul (Num 0.5) (js_sub (sanitize_target tgt) (sanitize_current cur))) = Num v \<longrightarrow>
       new_pH_setpoint (prescriptive_setpoint_optimizer rnd cur tgt det) = round64 (round_dp 2 v)
       \<and> (\<exists>k::int. round_dp 2 v = of_int k / 10 ^ 2)
       \<and> \<bar>round_dp 2 v - v\<bar> \<le> 1 / 200)
   \<and> new_pH_setpoint (prescriptive_setpoint_optimizer rnd cur tgt det) =
       new_pH_setpoint (prescriptive_setpoint_optimizer rnd' cur tgt det')
   \<and> new_pH_setpoint (prescriptive_setpoint_optimizer rnd (Num 1) (Some (Num 2)) (Some True)) = Num 1.5
   \<and> new_pH_setpoint (prescriptive_setpoint_optimizer rnd (Num 2) (Some (Num 1)) (Some True)) = Num 1.5
   \<and> new_pH_setpoint (prescriptive_setpoint_optimizer rnd (lit 0.001) (Some (lit 0.029)) (Some True))
       = lit 0.01"
proof -
  have r: "new_pH_setpoint (prescriptive_setpoint_optimizer rnd cur tgt det) = round64 (round_dp 2 v)
       \<and> (\<exists>k::int. round_dp 2 v = of_int k / 10 ^ 2)
       \<and> \<bar>round_dp 2 v - v\<bar> \<le> 1 / 200"
    if "js_add (sanitize_current cur)
         (js_mul (Num 0.5) (js_sub (sanitize_target tgt) (sanitize_current cur))) = Num v"
    using that round_dp_error [of 2 v] round_dp_grid [of 2 v]
    by (simp add: optimizer_unfold setpoint_step_def)
  have e1: "new_pH_setpoint (prescriptive_setpoint_optimizer rnd (Num 1) (Some (Num 2)) (Some True)) = Num 1.5"
    by (simp add: optimizer_unfold setpoint_step_def js_sub_def evaluate64 round64_value [where e = "- 7"] round64_value [where e = "- 1"] round64_value [where e = "0"])
  have e2: "new_pH_setpoint (prescriptive_setpoint_optimizer rnd (Num 2) (Some (Num 1)) (Some True)) = Num 1.5"
    by (simp add: optimizer_unfold setpoint_step_def js_sub_def evaluate64 round64_value [where e = "- 7"] round64_value [where e = "- 1"] round64_value [where e = "0"])
  have e3: "new_pH_setpoint (prescriptive_setpoint_optimizer rnd (lit 0.001) (Some (lit 0.029)) (Some True))
       = lit 0.01"
    by (simp add: optimizer_unfold setpoint_step_def js_sub_def evaluate64 round64_value [where e = "- 10"] round64_value [where e = "- 7"] round64_value [where e = "- 6"])
  show ?thesis
    using r e1 e2 e3 by (simp add: optimizer_unfold setpoint_step_def)
qed

theorem setpoint_halfway_witness:
  "js_add (sanitize_current (lit 0.001))
     (js_mul (Num 0.5) (js_sub (sanitize_target (Some (lit 0.029))) (sanitize_current (lit 0.001))))
     = Num (1080863910568919 / 72057594037927936)
   \<and> new_pH_setpoint (prescriptive_setpoint_optimizer 0 (lit 0.001) (Some (lit 0.029)) (Some True))
       = round64 (round_dp 2 (1080863910568919 / 72057594037927936))
   \<and> round_dp 2 (1080863910568919 / 72057594037927936) = 1 / 100
   \<and> \<bar>round_dp 2 (1080863910568919 / 72057594037927936) - 1080863910568919 / 72057594037927936\<bar> \<le> 1 / 200"
proof -
  have s: "js_add (sanitize_current (lit 0.001))
     (js_mul (Num 0.5) (js_sub (sanitize_target (Some (lit 0.029))) (sanitize_current (lit 0.001))))
     = Num (1080863910568919 / 72057594037927936)"
    by (simp add: js_sub_def evaluate64 round64_value [where e = "- 10"] round64_value [where e = "- 7"] round64_value [where e = "- 6"])
  have r: "round_dp 2 (1080863910568919 / 72057594037927936) = 1 / 100"
    by (simp add: round_dp_def)
  show ?thesis
    using s r setpoint_halfway [where cur = "lit 0.001" and tgt = "Some (lit 0.029)"
        and rnd = 0 and det = "Some True" and v = "1080863910568919 / 72057594037927936"]
    by simp
qed

text \<open>
  Claim C6. The action is a function of the step
  \<open>0.5 * (sanitised targetPH - sanitised currentPH)\<close> alone, as computed in binary64:
  the raise message exactly when \<open>step > 0.01\<close>, the lower message exactly when
  \<open>step < -0.01\<close>, and "Maintain pH" otherwise. From 0 towards 0.02 the step is
  exactly 0.01, from 0.02 towards 0 exactly -0.01, and both give "Maintain pH"; from 1
  towards 1.02 the binary64 step exceeds 0.01 and the action is the raise message.
\<close>

theorem action_dead_band:
  "(action (prescriptive_setpoint_optimizer rnd cur tgt det) = ''Increase Acid/Base Flow (Raise pH)'')
      = js_gt (setpoint_step cur tgt) (lit 0.01)
   \<and> (action (prescriptive_setpoint_optimizer rnd cur tgt det) = ''Adjust Acid/Base Flow (Lower pH)'')
      = js_lt (setpoint_step cur tgt) (js_neg (lit 0.01))
   \<and> (action (prescriptive_setpoint_optimizer rnd cur tgt det) = ''Maintain pH'')
      = (\<not> js_gt (setpoint_step cur tgt) (lit 0.01)
         \<and> \<not> js_lt (setpoint_step cur tgt) (js_neg (lit 0.01)))
   \<and> setpoint_step (Num 0) (Some (lit 0.02)) = lit 0.01
   \<and> action (prescriptive_setpoint_optimizer rnd (Num 0) (Some (lit 0.02)) det) = ''Maintain pH''
   \<and> setpoint_step (lit 0.02) (Some (Num 0)) = js_neg (lit 0.01)
   \<and> action (prescriptive_setpoint_optimizer rnd (lit 0.02) (Some (Num 0)) det) = ''Maintain pH''
   \<and> js_gt (setpoint_step (Num 1) (Some (lit 1.02))) (lit 0.01)
   \<and> action (prescriptive_setpoint_optimizer rnd (Num 1) (Some (lit 1.02)) det)
       = ''Increase Acid/Base Flow (Raise pH)''"
proof -
  have l: "lit 0.01 = Num (5764607523034235 / 576460752303423488)"
    by (simp add: evaluate64 round64_value [where e = "- 7"])
  have gt_not_lt: "js_gt x (lit 0.01) \<Longrightarrow> \<not> js_lt x (js_neg (lit 0.01))" for x
    unfolding l by (cases x) (simp_all add: js_gt_def)
  have a1: "(action (prescriptive_setpoint_optimizer rnd cur tgt det) = ''Increase Acid/Base Flow (Raise pH)'')
      = js_gt (setpoint_step cur tgt) (lit 0.01)"
    by (simp add: optimizer_unfold)
  have a2: "(action (prescriptive_setpoint_optimizer rnd cur tgt det) = ''Adjust Acid/Base Flow (Lower pH)'')
      = js_lt (setpoint_step cur tgt) (js_neg (lit 0.01))"
    using gt_not_lt [of "setpoint_step cur tgt"] by (auto simp add: optimizer_unfold)
  have a3: "(action (prescriptive_setpoint_optimizer rnd cur tgt det) = ''Maintain pH'')
      = (\<not> js_gt (setpoint_step cur tgt) (lit 0.01)
         \<and> \<not> js_lt (setpoint_step cur tgt) (js_neg (lit 0.01)))"
    by (simp add: optimizer_unfold)
  have s1: "setpoint_step (Num 0) (Some (lit 0.02)) = lit 0.01"
    by (simp add: setpoint_step_def js_sub_def evaluate64 round64_value [where e = "- 7"] round64_value [where e = "- 6"])
  have s2: "setpoint_step (lit 0.02) (Some (Num 0)) = js_neg (lit 0.01)"
    by (simp add: setpoint_step_def js_sub_def evaluate64 round64_value [where e = "- 7"] round64_value [where e = "- 6"])
  have s3: "js_gt (setpoint_step (Num 1) (Some (lit 1.02))) (lit 0.01)"
    by (simp add: setpoint_step_def js_sub_def js_gt_def evaluate64 round64_value [where e = "- 7"] round64_value [where e = "- 6"] round64_value [where e = "0"])
  have e1: "action (prescriptive_setpoint_optimizer rnd (Num 0) (Some (lit 0.02)) det) = ''Maintain pH''"
    unfolding optimizer_unfold s1 l by (simp add: js_gt_def)
  have e2: "action (prescriptive_setpoint_optimizer rnd (lit 0.02) (Some (Num 0)) det) = ''Maintain pH''"
    unfolding optimizer_unfold s2 l by (simp add: js_gt_def)
  have e3: "action (prescriptive_setpoint_optimizer rnd (Num 1) (Some (lit 1.02)) det)
       = ''Increase Acid/Base Flow (Raise pH)''"
    using s3 by (simp add: optimizer_unfold)
  show ?thesis using a1 a2 a3 s1 s2 s3 e1 e2 e3 by blast
qed

text \<open>
  Claim C7. The predicted efficiency lies in \<open>[0, 1]\<close> for every current and target
  pH. The code fails this when both are \<open>+Infinity\<close>: their difference is NaN, the
  efficiency is NaN, and \<^verbatim>\<open>Math.max(0, Math.min(1, NaN))\<close> is NaN.
\<close>

theorem efficiency_same_infinity:
  "predicted_efficiency (prescriptive_setpoint_optimizer 0 PInf (Some PInf) (Some True)) = NaN"
  by (simp add: optimizer_unfold optimizer_noise_def js_sub_def js_add_NaN_right js_mul_NaN_right)

section \<open>Compliance checker: the claims\<close>

text \<open>
  Claim C3. Compliance is decided by the strict inequality \<open>safeTh + safeU < limit\<close>
  on the sanitised, unrounded total, the binary64 sum of the code, so a total equal to
  the limit is not compliant: 0.04 + 0.05 against 0.1 is compliant, 0.06 + 0.05 and
  0.05 + 0.05 are not, the last sum being exactly the binary64 value of 0.1. (The sum
  of 0.0003 and 0.0997 is the binary64 value just below 0.1, and is compliant at the
  default limit; likewise 0.1 + 0.7 against 0.8.) The finding is the "Meets" message
  exactly when compliant and the "EXCEEDS" message otherwise.
\<close>

theorem compliance_strict_inequality:
  "is_compliant (check_th_u_compliance th u lmt) =
     js_lt (js_add (sanitize_conc th) (sanitize_conc u)) (sanitize_limit lmt)
   \<and> (js_add (sanitize_conc th) (sanitize_conc u) = sanitize_limit lmt
        \<longrightarrow> \<not> is_compliant (check_th_u_compliance th u lmt))
   \<and> is_compliant (check_th_u_compliance (lit 0.04) (lit 0.05) (Some (lit 0.1)))
   \<and> \<not> is_compliant (check_th_u_compliance (lit 0.06) (lit 0.05) (Some (lit 0.1)))
   \<and> \<not> is_compliant (check_th_u_compliance (lit 0.05) (lit 0.05) (Some (lit 0.1)))
   \<and> js_add (lit 0.05) (lit 0.05) = lit 0.1
   \<and> is_compliant (check_th_u_compliance (lit 0.0003) (lit 0.0997) None)
   \<and> is_compliant (check_th_u_compliance (lit 0.1) (lit 0.7) (Some (lit 0.8)))
   \<and> (finding (check_th_u_compliance th u lmt) = ''Meets NCMM Th/U safety requirements.'')
        = is_compliant (check_th_u_compliance th u lmt)
   \<and> (finding (check_th_u_compliance th u lmt) = ''EXCEEDS Regulatory Limit. Adjust flowsheet.'')
        = (\<not> is_compliant (check_th_u_compliance th u lmt))"
proof -
  have e1: "is_compliant (check_th_u_compliance (lit 0.04) (lit 0.05) (Some (lit 0.1)))"
    by (simp add: compliance_unfold evaluate64 round64_value [where e = "- 5"] round64_value [where e = "- 4"])
  have e2: "\<not> is_compliant (check_th_u_compliance (lit 0.06) (lit 0.05) (Some (lit 0.1)))"
    by (simp add: compliance_unfold evaluate64 round64_value [where e = "- 5"] round64_value [where e = "- 4"])
  have e3: "\<not> is_compliant (check_th_u_compliance (lit 0.05) (lit 0.05) (Some (lit 0.1)))"
    by (simp add: compliance_unfold evaluate64 round64_value [where e = "- 5"] round64_value [where e = "- 4"])
  have e4: "js_add (lit 0.05) (lit 0.05) = lit 0.1"
    by (simp add: evaluate64 round64_value [where e = "- 5"] round64_value [where e = "- 4"])
  have e5: "is_compliant (check_th_u_compliance (lit 0.0003) (lit 0.0997) None)"
    by (simp add: compliance_unfold evaluate64 round64_value [where e = "- 12"] round64_value [where e = "- 4"])
  have e6: "is_compliant (check_th_u_compliance (lit 0.1) (lit 0.7) (Some (lit 0.8)))"
    by (simp add: compliance_unfold evaluate64 round64_value [where e = "- 4"] round64_value [where e = "- 1"])
  show ?thesis
    using e1 e2 e3 e4 e5 e6 by (simp add: compliance_unfold js_lt_irrefl)
qed

theorem compliance_strict_inequality_witness:
  "js_add (sanitize_conc (lit 0.05)) (sanitize_conc (lit 0.05)) = sanitize_limit (Some (lit 0.1))
   \<and> \<not> is_compliant (check_th_u_compliance (lit 0.05) (lit 0.05) (Some (lit 0.1)))
   \<and> finding (check_th_u_compliance (lit 0.05) (lit 0.05) (Some (lit 0.1)))
       = ''EXCEEDS Regulatory Limit. Adjust flowsheet.''"
proof -
  have h: "js_add (sanitize_conc (lit 0.05)) (sanitize_conc (lit 0.05))
      = sanitize_limit (Some (lit 0.1))"
    by (simp add: evaluate64 round64_value [where e = "- 5"] round64_value [where e = "- 4"])
  show ?thesis
    using h compliance_strict_inequality [of "lit 0.05" "lit 0.05" "Some (lit 0.1)"]
    by (simp add: js_lt_irrefl)
qed

text \<open>
  Claim C9. The field \<open>total_conc_gl\<close> is the binary64 sum of the sanitised inputs (a
  negative or NaN concentration replaced by 0) rounded to 4 decimals: the binary64
  value of a multiple of \<open>10\<^sup>-\<^sup>4\<close> within 0.00005 of the sum. The sum of 0.1 and 0.2 is
  not the binary64 value of 0.3, and the total is; the total of -5 and 0.2, and of NaN
  and 0.2, is 0.2; the total of 0.00025 and 0.5 is 0.5002.
\<close>

theorem compliance_total_rounded:
  "total_conc_gl (check_th_u_compliance th u lmt) =
     parseFloat_toFixed 4 (js_add (sanitize_conc th) (sanitize_conc u))
   \<and> (js_add (sanitize_conc th) (sanitize_conc u) = Num s \<longrightarrow>
        total_conc_gl (check_th_u_compliance th u lmt) = round64 (round_dp 4 s)
        \<and> (\<exists>k::int. round_dp 4 s = of_int k / 10 ^ 4)
        \<and> \<bar>round_dp 4 s - s\<bar> \<le> 1 / 20000)
   \<and> total_conc_gl (check_th_u_compliance (lit 0.1) (lit 0.2) (Some (lit 0.5))) = lit 0.3
   \<and> js_add (lit 0.1) (lit 0.2) \<noteq> lit 0.3
   \<and> total_conc_gl (check_th_u_compliance (Num (- 5)) (lit 0.2) (Some (lit 0.5))) = lit 0.2
   \<and> total_conc_gl (check_th_u_compliance NaN (lit 0.2) (Some (lit 0.5))) = lit 0.2
   \<and> total_conc_gl (check_th_u_compliance (lit 0.00025) (lit 0.5) (Some (Num 2))) = lit 0.5002"
proof -
  have r: "total_conc_gl (check_th_u_compliance th u lmt) = round64 (round_dp 4 s)
        \<and> (\<exists>k::int. round_dp 4 s = of_int k / 10 ^ 4)
        \<and> \<bar>round_dp 4 s - s\<bar> \<le> 1 / 20000"
    if "js_add (sanitize_conc th) (sanitize_conc u) = Num s"
    using that round_dp_error [of 4 s] round_dp_grid [of 4 s] by (simp add: compliance_unfold)
  have c1: "total_conc_gl (check_th_u_compliance (lit 0.1) (lit 0.2) (Some (lit 0.5))) = lit 0.3"
    by (simp add: compliance_unfold evaluate64 round64_value [where e = "- 4"] round64_value [where e = "- 3"] round64_value [where e = "- 2"])
  have c2: "js_add (lit 0.1) (lit 0.2) \<noteq> lit 0.3"
    by (simp add: evaluate64 round64_value [where e = "- 4"] round64_value [where e = "- 3"] round64_value [where e = "- 2"])
  have c3: "total_conc_gl (check_th_u_compliance (Num (- 5)) (lit 0.2) (Some (lit 0.5))) = lit 0.2"
    by (simp add: compliance_unfold evaluate64 round64_value [where e = "- 3"])
  have c4: "total_conc_gl (check_th_u_compliance NaN (lit 0.2) (Some (lit 0.5))) = lit 0.2"
    by (simp add: compliance_unfold evaluate64 round64_value [where e = "- 3"])
  have c5: "total_conc_gl (check_th_u_compliance (lit 0.00025) (lit 0.5) (Some (Num 2))) = lit 0.5002"
    by (simp add: compliance_unfold evaluate64 round64_value [where e = "- 12"] round64_value [where e = "- 1"])
  show ?thesis using r c1 c2 c3 c4 c5 by (simp add: compliance_unfold)
qed

theorem compliance_total_rounded_witness:
  "js_add (sanitize_conc (lit 0.1)) (sanitize_conc (lit 0.2)) = Num (1351079888211149 / 4503599627370496)
   \<and> total_conc_gl (check_th_u_compliance (lit 0.1) (lit 0.2) (Some (lit 0.5)))
       = round64 (round_dp 4 (1351079888211149 / 4503599627370496))
   \<and> round_dp 4 (1351079888211149 / 4503599627370496) = 3 / 10
   \<and> \<bar>round_dp 4 (1351079888211149 / 4503599627370496) - 1351079888211149 / 4503599627370496\<bar> \<le> 1 / 20000"
proof -
  have s: "js_add (sanitize_conc (lit 0.1)) (sanitize_conc (lit 0.2)) = Num (1351079888211149 / 4503599627370496)"
    by (simp add: evaluate64 round64_value [where e = "- 4"] round64_value [where e = "- 3"] round64_value [where e = "- 2"])
  have r: "round_dp 4 (1351079888211149 / 4503599627370496) = 3 / 10"
    by (simp add: round_dp_def)
  show ?thesis
    using s r compliance_total_rounded [where th = "lit 0.1" and u = "lit 0.2"
        and lmt = "Some (lit 0.5)" and s = "1351079888211149 / 4503599627370496"]
    by simp
qed

text \<open>
  Claim C10. A limit that is not NaN and is at most 0 is never met: the limit is only
  replaced when NaN, and the sanitised total is never negative, so the result is
  non-compliant whatever the concentrations are.
\<close>

theorem nonpositive_limit_never_compliant:
  "js_le lmt (Num 0) \<Longrightarrow> \<not> is_compliant (check_th_u_compliance th u (Some lmt))"
proof -
  assume le: "js_le lmt (Num 0)"
  hence "sanitize_limit (Some lmt) = lmt" by (cases lmt) simp_all
  thus ?thesis
    using js_lt_le_trans_zero [OF sanitized_total_not_negative le, of th u]
    by (simp add: compliance_unfold)
qed

theorem nonpositive_limit_never_compliant_witness:
  "js_le (Num (- 1)) (Num 0)
   \<and> \<not> is_compliant (check_th_u_compliance (Num (- 5)) (lit 0.2) (Some (Num (- 1))))"
proof -
  have h: "js_le (Num (- 1)) (Num 0)" by simp
  show ?thesis
    using h nonpositive_limit_never_compliant [OF h, of "Num (- 5)" "lit 0.2"] by simp
qed

end
